theory Spec2Isabelle
  imports Main "HOL-Library.Word" "HOL-Library.Multiset"
begin

unbundle bit_operations_syntax

chapter \<open>The model\<close>

section \<open>Basic types (lua.h, luaconf.h, llimits.h)\<close>

text \<open>
  \<open>lua_Integer\<close> is \<open>LUA_INTEGER\<close> and \<open>lua_Unsigned\<close> is \<open>LUA_UNSIGNED\<close>; the default
  configuration makes both 64 bits wide. One word type serves for both: \<open>l_castS2U\<close> and
  \<open>l_castU2S\<close> only reinterpret the bits, \<open>sint\<close> reads a word as \<open>lua_Integer\<close> and
  \<open>uint\<close>/\<open>unat\<close> read it as \<open>lua_Unsigned\<close>.
\<close>

type_synonym lua_Integer = "64 word"

text \<open>The status codes of lua.h that an error carries: \<open>LUA_ERRRUN\<close> (2) with its
  message, \<open>LUA_ERRMEM\<close> (4).\<close>

datatype lua_error = LUA_ERRRUN string | LUA_ERRMEM

text \<open>The operation codes \<open>LUA_OPADD\<close> (0) to \<open>LUA_OPBNOT\<close> (13) of lua.h, in their order.\<close>

datatype arith_op =
    LUA_OPADD | LUA_OPSUB | LUA_OPMUL | LUA_OPMOD | LUA_OPPOW | LUA_OPDIV | LUA_OPIDIV
  | LUA_OPBAND | LUA_OPBOR | LUA_OPBXOR | LUA_OPSHL | LUA_OPSHR | LUA_OPUNM | LUA_OPBNOT

section \<open>Integer arithmetic (lobject.c, lvm.c)\<close>

text \<open>Modelled from the spec: \<open>luaV_div\<close> of lvm.c is not among the sources. The spec says
  that integer division by zero raises; the quotient is the floor of the exact quotient
  (\<open>1//2\<close> is \<open>0\<close>), reduced to the integer width.\<close>

definition luaV_div :: "lua_Integer \<Rightarrow> lua_Integer \<Rightarrow> lua_error + lua_Integer" where
  "luaV_div m n =
     (if n = 0 then Inl (LUA_ERRRUN ''attempt to perform n//0'')
      else Inr (word_of_int (sint m div sint n)))"

text \<open>Modelled from the spec: \<open>luaV_mod\<close> of lvm.c is not among the sources. The spec says
  that integer modulo by zero raises; the remainder is the one of the floor division.\<close>

definition luaV_mod :: "lua_Integer \<Rightarrow> lua_Integer \<Rightarrow> lua_error + lua_Integer" where
  "luaV_mod m n =
     (if n = 0 then Inl (LUA_ERRRUN ''attempt to perform n%%0'')
      else Inr (word_of_int (sint m mod sint n)))"

text \<open>Modelled from the spec: \<open>luaV_shiftl\<close> of lvm.c is not among the sources. As
  lobject.c describes it: a shift left by \<open>y\<close>, a logical shift right by \<open>-y\<close> when \<open>y\<close>
  is negative, and 0 when the shift is by as many bits as the integer has, or more.\<close>

definition luaV_shiftl :: "lua_Integer \<Rightarrow> lua_Integer \<Rightarrow> lua_Integer" where
  "luaV_shiftl x y =
     (if sint y \<le> - 64 then 0
      else if sint y < 0 then drop_bit (nat (- sint y)) x
      else if 64 \<le> sint y then 0
      else push_bit (nat (sint y)) x)"

text \<open>\<open>intarith\<close>. The macro \<open>intop\<close> of lvm.h casts both operands to \<open>lua_Unsigned\<close>,
  applies the C operator and casts the result back: on words that is the operator itself.
  The \<open>default\<close> branch (\<open>lua_assert(0); return 0\<close>) is the one of \<open>LUA_OPPOW\<close> and
  \<open>LUA_OPDIV\<close>.\<close>

fun intarith :: "arith_op \<Rightarrow> lua_Integer \<Rightarrow> lua_Integer \<Rightarrow> lua_error + lua_Integer" where
  "intarith LUA_OPADD v1 v2 = Inr (v1 + v2)"
| "intarith LUA_OPSUB v1 v2 = Inr (v1 - v2)"
| "intarith LUA_OPMUL v1 v2 = Inr (v1 * v2)"
| "intarith LUA_OPMOD v1 v2 = luaV_mod v1 v2"
| "intarith LUA_OPIDIV v1 v2 = luaV_div v1 v2"
| "intarith LUA_OPBAND v1 v2 = Inr (v1 AND v2)"
| "intarith LUA_OPBOR v1 v2 = Inr (v1 OR v2)"
| "intarith LUA_OPBXOR v1 v2 = Inr (v1 XOR v2)"
| "intarith LUA_OPSHL v1 v2 = Inr (luaV_shiftl v1 v2)"
| "intarith LUA_OPSHR v1 v2 = Inr (luaV_shiftl v1 (- v2))"
| "intarith LUA_OPUNM v1 v2 = Inr (0 - v1)"
| "intarith LUA_OPBNOT v1 v2 = Inr ((NOT 0) XOR v1)"
| "intarith LUA_OPPOW v1 v2 = Inr 0"
| "intarith LUA_OPDIV v1 v2 = Inr 0"

text \<open>The exact integer \<open>k\<close> reduced modulo \<open>2 ^ 64\<close> into the range of \<open>lua_Integer\<close>
  (two's complement): what the claim about overflow compares \<open>intarith\<close> with.\<close>

definition wrap64 :: "int \<Rightarrow> int" where
  "wrap64 k = (k + 2 ^ 63) mod 2 ^ 64 - 2 ^ 63"

section \<open>Tagged values (lobject.h)\<close>

text \<open>\<open>lua_Number\<close> is \<open>LUA_NUMBER\<close>, by default a C \<open>double\<close>: the model carries its 64 bits and
  never computes on them itself; every operation on floats is a parameter (\<open>float_ops\<close>
  below). A pointer is an address.\<close>

type_synonym lua_Number = "64 word"

text \<open>\<open>TValue\<close>: the tag \<open>tt_\<close> with its variant bits is the constructor, the member of the
  union \<open>Value\<close> that the tag selects is its argument. A string value points to a \<open>TString\<close>;
  here it carries the bytes of that string.\<close>

datatype TValue =
    TNIL
  | TBOOLEAN bool
  | TLIGHTUSERDATA nat
  | TNUMFLT lua_Number
  | TNUMINT lua_Integer
  | TSHRSTR string
  | TLNGSTR string
  | TTABLE nat
  | TLCL nat
  | TLCF nat
  | TCCL nat
  | TUSERDATA nat
  | TTHREAD nat

text \<open>What the C library, the floating-point unit and luaconf.h/llimits.h provide for
  \<open>lua_Number\<close>: the arithmetic macros \<open>luai_numadd\<close> \<dots> \<open>luai_numunm\<close>, the cast
  \<open>cast_num\<close> of an integer, the conversion of a float with an exact integer value
  (\<open>flt_tointeger\<close>, what \<open>luaV_tointeger\<close> does with a float), \<open>lua_str2number\<close> and
  \<open>lua_strx2number\<close> (\<open>strtod\<close>: the value and the number of characters consumed, that
  is \<open>endptr - s\<close>) and the decimal point of the locale.\<close>

record float_ops =
  luai_numadd :: "lua_Number \<Rightarrow> lua_Number \<Rightarrow> lua_Number"
  luai_numsub :: "lua_Number \<Rightarrow> lua_Number \<Rightarrow> lua_Number"
  luai_nummul :: "lua_Number \<Rightarrow> lua_Number \<Rightarrow> lua_Number"
  luai_numdiv :: "lua_Number \<Rightarrow> lua_Number \<Rightarrow> lua_Number"
  luai_numpow :: "lua_Number \<Rightarrow> lua_Number \<Rightarrow> lua_Number"
  luai_numidiv :: "lua_Number \<Rightarrow> lua_Number \<Rightarrow> lua_Number"
  luai_nummod :: "lua_Number \<Rightarrow> lua_Number \<Rightarrow> lua_Number"
  luai_numunm :: "lua_Number \<Rightarrow> lua_Number"
  cast_num :: "lua_Integer \<Rightarrow> lua_Number"
  flt_tointeger :: "lua_Number \<Rightarrow> lua_Integer option"
  lua_str2number :: "string \<Rightarrow> lua_Number \<times> nat"
  lua_strx2number :: "string \<Rightarrow> lua_Number \<times> nat"
  lua_getlocaledecpoint :: char

text \<open>A \<open>float_ops\<close> for concrete runs that recognises no float numeral (\<open>strtod\<close> consumes
  nothing) and whose operations all return the bits of \<open>+0.0\<close>.\<close>

definition no_floats :: float_ops where
  "no_floats = \<lparr>luai_numadd = (\<lambda>a b. 0), luai_numsub = (\<lambda>a b. 0), luai_nummul = (\<lambda>a b. 0),
     luai_numdiv = (\<lambda>a b. 0), luai_numpow = (\<lambda>a b. 0), luai_numidiv = (\<lambda>a b. 0),
     luai_nummod = (\<lambda>a b. 0), luai_numunm = (\<lambda>a. 0), cast_num = (\<lambda>i. 0),
     flt_tointeger = (\<lambda>n. None), lua_str2number = (\<lambda>s. (0, 0)),
     lua_strx2number = (\<lambda>s. (0, 0)), lua_getlocaledecpoint = CHR ''.''\<rparr>"

section \<open>Strings to numbers (lobject.c)\<close>

text \<open>The character classes of lctype.h, which is not among the sources: Lua's own
  ASCII tables. \<open>ltolower\<close> is \<open>(c) | ('A' ^ 'a')\<close>, on \<open>int\<close>.\<close>

definition lisspace :: "char \<Rightarrow> bool" where
  "lisspace c = (c = CHR '' '' \<or> (9 \<le> (of_char c :: nat) \<and> (of_char c :: nat) \<le> 13))"

definition lisdigit :: "char \<Rightarrow> bool" where
  "lisdigit c = (48 \<le> (of_char c :: nat) \<and> (of_char c :: nat) \<le> 57)"

definition lisxdigit :: "char \<Rightarrow> bool" where
  "lisxdigit c = (lisdigit c \<or> (65 \<le> (of_char c :: nat) \<and> (of_char c :: nat) \<le> 70)
                   \<or> (97 \<le> (of_char c :: nat) \<and> (of_char c :: nat) \<le> 102))"

definition ltolower :: "char \<Rightarrow> int" where
  "ltolower c = (of_char c OR 32)"

definition luaO_hexavalue :: "char \<Rightarrow> int" where
  "luaO_hexavalue c =
     (if lisdigit c then of_char c - 48 else (ltolower c - 97) + 10)"

text \<open>A C string is the list of its characters before the terminating zero: \<open>*s\<close> is the
  head of the list, \<open>'\0'\<close> when the list is empty, and \<open>s++\<close> is its tail. \<open>isneg\<close> returns
  the advanced pointer with its result.\<close>

fun isneg :: "string \<Rightarrow> bool \<times> string" where
  "isneg (c # s) =
     (if c = CHR ''-'' then (True, s) else if c = CHR ''+'' then (False, s) else (False, c # s))"
| "isneg [] = (False, [])"

text \<open>\<open>LUA_MAXINTEGER\<close> (luaconf.h) is the greatest \<open>lua_Integer\<close>.\<close>

definition LUA_MAXINTEGER :: int where
  "LUA_MAXINTEGER = 2 ^ 63 - 1"

definition MAXBY10 :: "64 word" where
  "MAXBY10 = word_of_int (LUA_MAXINTEGER div 10)"

definition MAXLASTD :: int where
  "MAXLASTD = LUA_MAXINTEGER mod 10"

text \<open>The two loops of \<open>l_str2int\<close>, on the accumulator \<open>a\<close> (a \<open>lua_Unsigned\<close>) and the
  flag \<open>empty\<close>; each returns them with the pointer it stopped at. The hexadecimal loop has
  no test for overflow. The decimal loop returns \<open>NULL\<close> (\<open>None\<close>) from inside.\<close>

fun str2int_hex :: "string \<Rightarrow> 64 word \<Rightarrow> bool \<Rightarrow> 64 word \<times> bool \<times> string" where
  "str2int_hex (c # s) a emp =
     (if lisxdigit c then str2int_hex s (a * 16 + word_of_int (luaO_hexavalue c)) False
      else (a, emp, c # s))"
| "str2int_hex [] a emp = (a, emp, [])"

fun str2int_dec ::
  "string \<Rightarrow> bool \<Rightarrow> 64 word \<Rightarrow> bool \<Rightarrow> (64 word \<times> bool \<times> string) option" where
  "str2int_dec (c # s) neg a emp =
     (if lisdigit c then
        (let d = (of_char c :: int) - 48
         in if MAXBY10 \<le> a \<and> (MAXBY10 < a \<or> MAXLASTD + (if neg then 1 else 0) < d) then None
            else str2int_dec s neg (a * 10 + word_of_int d) False)
      else Some (a, emp, c # s))"
| "str2int_dec [] neg a emp = Some (a, emp, [])"

text \<open>\<open>l_str2int\<close>: \<open>None\<close> is \<open>NULL\<close>; on success the integer written to \<open>*result\<close> and
  the returned pointer as an offset from \<open>s\<close>.\<close>

definition l_str2int :: "string \<Rightarrow> (lua_Integer \<times> nat) option" where
  "l_str2int s =
     (let (neg, s1) = isneg (dropWhile lisspace s);
          r = (case s1 of
                 c0 # c1 # s2 \<Rightarrow>
                   if c0 = CHR ''0'' \<and> (c1 = CHR ''x'' \<or> c1 = CHR ''X'')
                   then Some (str2int_hex s2 0 True)
                   else str2int_dec s1 neg 0 True
               | _ \<Rightarrow> str2int_dec s1 neg 0 True)
      in case r of
           None \<Rightarrow> None
         | Some (a, emp, s3) \<Rightarrow>
             (let s4 = dropWhile lisspace s3
              in if emp \<or> s4 \<noteq> [] then None
                 else Some (if neg then 0 - a else a, length s - length s4)))"

definition L_MAXLENNUM :: nat where
  "L_MAXLENNUM = 200"

text \<open>\<open>l_str2dloc\<close>: the conversion proper is \<open>lua_strx2number\<close> or \<open>lua_str2number\<close>, which
  return the value and \<open>endptr\<close>, here the offset \<open>endptr - s\<close>.\<close>

definition l_str2dloc :: "float_ops \<Rightarrow> string \<Rightarrow> int \<Rightarrow> (lua_Number \<times> nat) option" where
  "l_str2dloc fp s mode =
     (let (result, endptr) =
            (if mode = of_char CHR ''x'' then lua_strx2number fp s else lua_str2number fp s)
      in if endptr = 0 then None
         else (let rest = dropWhile lisspace (drop endptr s)
               in if rest = []
                  then Some (result, endptr + length (takeWhile lisspace (drop endptr s)))
                  else None))"

text \<open>\<open>l_str2d\<close>: \<open>strpbrk(s, ".xXnN")\<close> is the first character of \<open>s\<close> among these; the
  second attempt runs on the copy of \<open>s\<close> whose first dot is replaced by the decimal point
  of the locale, and its end pointer is made relative to \<open>s\<close>: the same offset.\<close>

definition l_str2d :: "float_ops \<Rightarrow> string \<Rightarrow> (lua_Number \<times> nat) option" where
  "l_str2d fp s =
     (let pmode = find (\<lambda>c. c \<in> set ''.xXnN'') s;
          mode = (case pmode of Some c \<Rightarrow> ltolower c | None \<Rightarrow> 0)
      in if mode = of_char CHR ''n'' then None
         else (case l_str2dloc fp s mode of
                 Some r \<Rightarrow> Some r
               | None \<Rightarrow>
                   if L_MAXLENNUM < length s \<or> CHR ''.'' \<notin> set s then None
                   else l_str2dloc fp
                          (s[length (takeWhile (\<lambda>c. c \<noteq> CHR ''.'') s) := lua_getlocaledecpoint fp])
                          mode))"

text \<open>The C string that starts at the bytes \<open>s\<close>: it ends before the first zero byte.\<close>

definition c_str :: "string \<Rightarrow> string" where
  "c_str s = takeWhile (\<lambda>c. c \<noteq> CHR 0x00) s"

text \<open>\<open>luaO_str2num\<close>: the returned size, and the value written to \<open>*o\<close> (\<open>None\<close> when
  nothing is written).\<close>

definition luaO_str2num :: "float_ops \<Rightarrow> string \<Rightarrow> nat \<times> TValue option" where
  "luaO_str2num fp s =
     (case l_str2int (c_str s) of
        Some (i, e) \<Rightarrow> (e + 1, Some (TNUMINT i))
      | None \<Rightarrow>
          (case l_str2d fp (c_str s) of
             Some (n, e) \<Rightarrow> (e + 1, Some (TNUMFLT n))
           | None \<Rightarrow> (0, None)))"

text \<open>One round of each loop of \<open>l_str2int\<close> on the exact value, without wrap-around: with
  these the value of a string of digits is a fold, and the claims about \<open>l_str2int\<close> compare
  its result with that value.\<close>

definition hex_step :: "nat \<Rightarrow> char \<Rightarrow> nat" where
  "hex_step a c = a * 16 + nat (luaO_hexavalue c)"

definition dec_step :: "nat \<Rightarrow> char \<Rightarrow> nat" where
  "dec_step a c = a * 10 + (of_char c - 48)"


text \<open>A \<open>float_ops\<close> for concrete runs whose \<open>lua_str2number\<close> recognises two numerals at the
  start of a string, \<open>1.5\<close> and \<open>1e2\<close>, with the bits of the doubles 1.5 and 100.0.\<close>

definition sample_floats :: float_ops where
  "sample_floats =
     no_floats\<lparr>lua_str2number :=
                 (\<lambda>s. if take 3 s = ''1.5'' then (0x3FF8000000000000, 3)
                      else if take 3 s = ''1e2'' then (0x4059000000000000, 3) else (0, 0))\<rparr>"


section \<open>Coercion to numbers (lvm.h, lvm.c)\<close>

text \<open>Modelled from the spec: \<open>luaV_tonumber_\<close> of lvm.c is not among the sources. The spec
  has integers coerce to floats and "strings convertible to numbers" accepted; lobject.c
  says that the operands are converted to floats "whether they're strings or ints". A
  string is convertible when \<open>luaO_str2num\<close> accepts all of it, that is, returns its length
  plus one.\<close>

definition luaV_tonumber :: "float_ops \<Rightarrow> TValue \<Rightarrow> lua_Number option" where
  "luaV_tonumber fp obj =
     (let of_string = (\<lambda>s. case luaO_str2num fp s of
                              (sz, Some (TNUMINT i)) \<Rightarrow>
                                if sz = length s + 1 then Some (cast_num fp i) else None
                            | (sz, Some (TNUMFLT n)) \<Rightarrow> if sz = length s + 1 then Some n else None
                            | _ \<Rightarrow> None)
      in case obj of
           TNUMINT i \<Rightarrow> Some (cast_num fp i)
         | TSHRSTR s \<Rightarrow> of_string s
         | TLNGSTR s \<Rightarrow> of_string s
         | _ \<Rightarrow> None)"

text \<open>The macro \<open>tonumber\<close> of lvm.h: a float is taken as it is, anything else goes to
  \<open>luaV_tonumber_\<close>.\<close>

definition tonumber :: "float_ops \<Rightarrow> TValue \<Rightarrow> lua_Number option" where
  "tonumber fp o1 = (case o1 of TNUMFLT n \<Rightarrow> Some n | _ \<Rightarrow> luaV_tonumber fp o1)"

text \<open>Modelled from the spec: \<open>luaV_tointeger\<close> of lvm.c is not among the sources.
  lobject.c says of the conversion to integers that "strings and floats can be
  converted": a float through \<open>flt_tointeger\<close>, a string through \<open>luaO_str2num\<close>.\<close>

definition luaV_tointeger :: "float_ops \<Rightarrow> TValue \<Rightarrow> lua_Integer option" where
  "luaV_tointeger fp obj =
     (let of_string = (\<lambda>s. case luaO_str2num fp s of
                              (sz, Some (TNUMINT i)) \<Rightarrow> if sz = length s + 1 then Some i else None
                            | (sz, Some (TNUMFLT n)) \<Rightarrow>
                                if sz = length s + 1 then flt_tointeger fp n else None
                            | _ \<Rightarrow> None)
      in case obj of
           TNUMFLT n \<Rightarrow> flt_tointeger fp n
         | TNUMINT i \<Rightarrow> Some i
         | TSHRSTR s \<Rightarrow> of_string s
         | TLNGSTR s \<Rightarrow> of_string s
         | _ \<Rightarrow> None)"

text \<open>The macro \<open>tointeger\<close> of lvm.h: an integer is taken as it is, anything else goes to
  \<open>luaV_tointeger\<close>.\<close>

definition tointeger :: "float_ops \<Rightarrow> TValue \<Rightarrow> lua_Integer option" where
  "tointeger fp o1 = (case o1 of TNUMINT i \<Rightarrow> Some i | _ \<Rightarrow> luaV_tointeger fp o1)"

section \<open>Arithmetic on values (lobject.c, ltm.c)\<close>









section \<open>The stack of the embedding API (lapi.c, lapi.h)\<close>

text \<open>The fields of \<open>lua_State\<close> and of its current \<open>CallInfo\<close> that lapi.c uses for stack
  indices. The stack is the array \<open>L->stack\<close>; \<open>L->top\<close> (here \<open>topL\<close>), \<open>L->ci->func\<close> and
  \<open>L->ci->top\<close> are pointers into it, here indices. \<open>l_registry\<close> is \<open>G(L)->l_registry\<close>, and
  \<open>cl_upvalue\<close> gives the upvalue array of the C closure at an address.\<close>

record lua_State =
  stack :: "TValue list"
  topL :: nat
  ci_func :: nat
  ci_top :: nat
  l_registry :: TValue
  cl_upvalue :: "nat \<Rightarrow> TValue list"

text \<open>\<open>LUAI_MAXSTACK\<close> (luaconf.h) and \<open>MAXUPVAL\<close> (lfunc.h) are not among the sources; these
  are their defaults.\<close>

definition LUAI_MAXSTACK :: int where
  "LUAI_MAXSTACK = 1000000"

definition LUA_REGISTRYINDEX :: int where
  "LUA_REGISTRYINDEX = - LUAI_MAXSTACK - 1000"

definition MAXUPVAL :: int where
  "MAXUPVAL = 255"

definition ispseudo :: "int \<Rightarrow> bool" where
  "ispseudo i = (i \<le> LUA_REGISTRYINDEX)"

text \<open>What a \<open>TValue *\<close> returned by \<open>index2addr\<close> points to: a stack slot, the registry,
  an upvalue of a C closure, or the static nil object (\<open>NONVALIDVALUE\<close>).\<close>

datatype TValue_ptr = StackSlot nat | Registry | CUpvalue nat nat | NONVALIDVALUE

text \<open>\<open>index2addr\<close>. \<open>None\<close> is a failed \<open>api_check\<close> (or a failed \<open>check_exp\<close> of
  \<open>clCvalue\<close>): the index is outside the contract of the API and C leaves the behaviour
  undefined.\<close>

definition index2addr :: "lua_State \<Rightarrow> int \<Rightarrow> TValue_ptr option" where
  "index2addr L idx =
     (if 0 < idx then
        (if \<not> idx \<le> int (ci_top L) - (int (ci_func L) + 1) then None
         else if topL L \<le> ci_func L + nat idx then Some NONVALIDVALUE
         else Some (StackSlot (ci_func L + nat idx)))
      else if \<not> ispseudo idx then
        (if \<not> (idx \<noteq> 0 \<and> - idx \<le> int (topL L) - (int (ci_func L) + 1)) then None
         else Some (StackSlot (nat (int (topL L) + idx))))
      else if idx = LUA_REGISTRYINDEX then Some Registry
      else
        (let i = LUA_REGISTRYINDEX - idx
         in if \<not> i \<le> MAXUPVAL + 1 then None
            else (case stack L ! ci_func L of
                    TLCF f \<Rightarrow> Some NONVALIDVALUE
                  | TCCL cl \<Rightarrow>
                      if i \<le> int (length (cl_upvalue L cl)) then Some (CUpvalue cl (nat i - 1))
                      else Some NONVALIDVALUE
                  | _ \<Rightarrow> None)))"

text \<open>Reading through such a pointer.\<close>

fun deref :: "lua_State \<Rightarrow> TValue_ptr \<Rightarrow> TValue" where
  "deref L (StackSlot i) = stack L ! i"
| "deref L Registry = l_registry L"
| "deref L (CUpvalue cl i) = cl_upvalue L cl ! i"
| "deref L NONVALIDVALUE = TNIL"

definition lua_gettop :: "lua_State \<Rightarrow> int" where
  "lua_gettop L = int (topL L) - (int (ci_func L) + 1)"

text \<open>\<open>api_incr_top\<close> (lapi.h): \<open>None\<close> is the failed check "stack overflow".\<close>

definition api_incr_top :: "lua_State \<Rightarrow> lua_State option" where
  "api_incr_top L =
     (let L' = L\<lparr>topL := topL L + 1\<rparr> in if topL L' \<le> ci_top L' then Some L' else None)"

definition lua_pushnumber :: "lua_State \<Rightarrow> lua_Number \<Rightarrow> lua_State option" where
  "lua_pushnumber L n = api_incr_top (L\<lparr>stack := (stack L)[topL L := TNUMFLT n]\<rparr>)"

definition lua_pushinteger :: "lua_State \<Rightarrow> lua_Integer \<Rightarrow> lua_State option" where
  "lua_pushinteger L n = api_incr_top (L\<lparr>stack := (stack L)[topL L := TNUMINT n]\<rparr>)"

text \<open>\<open>lua_tonumberx\<close> and \<open>lua_tointegerx\<close>: the returned number and the flag written to
  \<open>*pisnum\<close>.\<close>

definition lua_tonumberx :: "float_ops \<Rightarrow> lua_State \<Rightarrow> int \<Rightarrow> (lua_Number \<times> bool) option" where
  "lua_tonumberx fp L idx =
     (case index2addr L idx of
        None \<Rightarrow> None
      | Some o1 \<Rightarrow>
          (case tonumber fp (deref L o1) of
             Some n \<Rightarrow> Some (n, True)
           | None \<Rightarrow> Some (0, False)))"

definition lua_tointegerx :: "float_ops \<Rightarrow> lua_State \<Rightarrow> int \<Rightarrow> (lua_Integer \<times> bool) option" where
  "lua_tointegerx fp L idx =
     (case index2addr L idx of
        None \<Rightarrow> None
      | Some o1 \<Rightarrow>
          (case tointeger fp (deref L o1) of
             Some res \<Rightarrow> Some (res, True)
           | None \<Rightarrow> Some (0, False)))"

text \<open>\<open>lua_stringtonumber\<close>: the returned size and the state; \<open>luaO_str2num\<close> writes its value
  to the slot \<open>L->top\<close>.\<close>

definition lua_stringtonumber ::
  "float_ops \<Rightarrow> lua_State \<Rightarrow> string \<Rightarrow> (nat \<times> lua_State) option" where
  "lua_stringtonumber fp L s =
     (let (sz, w) = luaO_str2num fp s;
          L1 = (case w of Some v \<Rightarrow> L\<lparr>stack := (stack L)[topL L := v]\<rparr> | None \<Rightarrow> L)
      in if sz \<noteq> 0 then map_option (Pair sz) (api_incr_top L1) else Some (sz, L1))"

text \<open>\<open>reverse\<close>: the stack after the loop; \<open>from\<close> and \<open>to\<close> are pointers into the stack,
  and \<open>to\<close> may be \<open>from - 1\<close>.\<close>

function reverse :: "TValue list \<Rightarrow> int \<Rightarrow> int \<Rightarrow> TValue list" where
  "reverse st from to =
     (if from < to
      then reverse (st[nat from := st ! nat to, nat to := st ! nat from]) (from + 1) (to - 1)
      else st)"
  by pat_completeness auto
termination
  by (relation "measure (\<lambda>(st, from, to). nat (to - from))") auto

declare reverse.simps [simp del]

text \<open>\<open>lua_rotate\<close>. \<open>None\<close> is a failed \<open>api_check\<close>: of \<open>index2addr\<close>, "index not in the
  stack" or "invalid 'n'".\<close>

definition lua_rotate :: "lua_State \<Rightarrow> int \<Rightarrow> int \<Rightarrow> lua_State option" where
  "lua_rotate L idx n =
     (let t = int (topL L) - 1
      in case index2addr L idx of
           Some (StackSlot p) \<Rightarrow>
             if ispseudo idx then None
             else if \<not> (if 0 \<le> n then n else - n) \<le> t - int p + 1 then None
             else
               (let m = (if 0 \<le> n then t - n else int p - n - 1);
                    st1 = reverse (stack L) (int p) m;
                    st2 = reverse st1 (m + 1) t;
                    st3 = reverse st2 (int p) t
                in Some (L\<lparr>stack := st3\<rparr>))
         | _ \<Rightarrow> None)"

text \<open>The rotation the claim describes, on a segment: the element at position \<open>k\<close> of
  the segment moves to position \<open>(k + n) mod length\<close>, so position \<open>j\<close> of the result
  holds the element that was at \<open>(j - n) mod length\<close>.\<close>

definition naive_rotate :: "int \<Rightarrow> 'a list \<Rightarrow> 'a list" where
  "naive_rotate n xs =
     map (\<lambda>j. xs ! nat ((int j - n) mod int (length xs))) [0..<length xs]"

text \<open>A state for concrete runs: a frame whose function is at slot 0, with the values
  1, 2, 3, 4 in its slots 1 to 4 and room up to slot 7.\<close>

definition four_slots :: lua_State where
  "four_slots =
     \<lparr>stack = [TLCF 0, TNUMINT 1, TNUMINT 2, TNUMINT 3, TNUMINT 4, TNIL, TNIL, TNIL],
      topL = 5, ci_func = 0, ci_top = 8, l_registry = TNIL, cl_upvalue = (\<lambda>a. [])\<rparr>"

section \<open>Memory manager (lmem.c, lmem.h)\<close>

text \<open>A pointer is an address, \<open>0\<close> is \<open>NULL\<close>. \<open>size_t\<close> and \<open>l_mem\<close> are 64 bits wide
  (llimits.h is not among the sources; this is its default on a 64-bit platform), C \<open>int\<close>
  is modelled by \<open>int\<close> where the code keeps it from overflowing.\<close>

type_synonym pointer = nat
type_synonym size_t = "64 word"
type_synonym l_mem = "64 word"

text \<open>The fields of \<open>global_State\<close> that lmem.c touches. \<open>frealloc\<close> is the allocation
  function the host gave to \<open>lua_newstate\<close>: it gets the allocator's own data \<open>ud\<close>, which
  it may change, and returns the new block or \<open>NULL\<close>. \<open>version\<close> is whether the pointer
  \<open>g->version\<close> is set, which \<open>f_luaopen\<close> does once the state is fully built.\<close>

record 'u global_State =
  frealloc :: "'u \<Rightarrow> pointer \<Rightarrow> size_t \<Rightarrow> size_t \<Rightarrow> pointer \<times> 'u"
  ud :: 'u
  GCdebt :: l_mem
  version :: bool

text \<open>The calls \<open>luaM_realloc_\<close> makes out of lmem.c, in their order: a call of the
  allocation function with its arguments and its result, and a call of
  \<open>luaC_fullgc(L, isemergency)\<close>. The C code keeps no such list; the model returns it so
  that a statement can say which calls were made.\<close>

datatype mem_event =
    Frealloc pointer size_t size_t pointer
  | FullGC bool

text \<open>\<open>luaM_realloc_\<close> (a name cannot end in an underscore here: \<open>luaM_realloc\<close>).
  \<open>luaC_fullgc\<close> (lgc.c) is not among the sources and is a parameter:
  the state after a full collection in emergency mode. \<open>luaD_throw(L, LUA_ERRMEM)\<close> is
  the result \<open>Inl LUA_ERRMEM\<close>, with the state at the throw. \<open>HARDMEMTESTS\<close> is not
  defined. The assertions are compiled out.\<close>

definition luaM_realloc ::
  "('u global_State \<Rightarrow> 'u global_State) \<Rightarrow> 'u global_State \<Rightarrow> pointer \<Rightarrow> size_t \<Rightarrow> size_t
     \<Rightarrow> mem_event list \<times> (lua_error + pointer) \<times> 'u global_State" where
  "luaM_realloc luaC_fullgc g block osize nsize =
     (let realosize = (if block \<noteq> 0 then osize else 0);
          (newblock, u1) = frealloc g (ud g) block osize nsize;
          g1 = g\<lparr>ud := u1\<rparr>;
          ev1 = [Frealloc block osize nsize newblock]
      in if newblock = 0 \<and> 0 < nsize then
           (if version g1 then
              (let g2 = luaC_fullgc g1;
                   (newblock2, u2) = frealloc g2 (ud g2) block osize nsize;
                   g3 = g2\<lparr>ud := u2\<rparr>;
                   ev2 = ev1 @ [FullGC True, Frealloc block osize nsize newblock2]
               in if newblock2 = 0 then (ev2, Inl LUA_ERRMEM, g3)
                  else (ev2, Inr newblock2, g3\<lparr>GCdebt := (GCdebt g3 + nsize) - realosize\<rparr>))
            else (ev1, Inl LUA_ERRMEM, g1))
         else (ev1, Inr newblock, g1\<lparr>GCdebt := (GCdebt g1 + nsize) - realosize\<rparr>))"

text \<open>The \<open>%d\<close> of the message format: an \<open>int\<close> in decimal.\<close>

fun dec_digits :: "nat \<Rightarrow> string" where
  "dec_digits n =
     (if n < 10 then [''0123456789'' ! n]
      else dec_digits (n div 10) @ [''0123456789'' ! (n mod 10)])"

definition fmt_d :: "int \<Rightarrow> string" where
  "fmt_d i = (if i < 0 then CHR ''-'' # dec_digits (nat (- i)) else dec_digits (nat i))"

text \<open>C's \<open>limit/2\<close> on \<open>int\<close> truncates towards zero.\<close>

definition c_half :: "int \<Rightarrow> int" where
  "c_half limit = (if 0 \<le> limit then limit div 2 else - ((- limit) div 2))"

definition MINSIZEARRAY :: int where
  "MINSIZEARRAY = 4"

text \<open>\<open>luaM_reallocv\<close> (lmem.h): the overflow test \<open>sizeof(n) >= sizeof(size_t) && ...\<close> is
  false where \<open>n\<close> is an \<open>int\<close> of 32 bits and \<open>size_t\<close> has 64, as here, so the macro is the
  call of \<open>luaM_realloc_\<close> with both counts multiplied by the element size in \<open>size_t\<close>.\<close>

definition luaM_reallocv ::
  "('u global_State \<Rightarrow> 'u global_State) \<Rightarrow> 'u global_State \<Rightarrow> pointer \<Rightarrow> int \<Rightarrow> int \<Rightarrow> size_t
     \<Rightarrow> mem_event list \<times> (lua_error + pointer) \<times> 'u global_State" where
  "luaM_reallocv luaC_fullgc g b on n e =
     luaM_realloc luaC_fullgc g b (word_of_int on * e) (word_of_int n * e)"

text \<open>\<open>luaM_growaux_\<close> (here \<open>luaM_growaux\<close>). \<open>luaG_runerror\<close> (ldebug.c) is not among the sources: the error it
  raises is \<open>LUA_ERRRUN\<close> with the formatted message. The result holds the new block and
  the new value of \<open>*size\<close>, which is written only after the reallocation returned.\<close>

definition luaM_growaux ::
  "('u global_State \<Rightarrow> 'u global_State) \<Rightarrow> 'u global_State \<Rightarrow> pointer \<Rightarrow> int \<Rightarrow> size_t \<Rightarrow> int
     \<Rightarrow> string \<Rightarrow> mem_event list \<times> (lua_error + pointer \<times> int) \<times> 'u global_State" where
  "luaM_growaux luaC_fullgc g block sz size_elems limit what =
     (if c_half limit \<le> sz \<and> limit \<le> sz then
        ([], Inl (LUA_ERRRUN (''too many '' @ what @ '' (limit is '' @ fmt_d limit @ '')'')), g)
      else
        (let newsize =
               (if c_half limit \<le> sz then limit
                else (if sz * 2 < MINSIZEARRAY then MINSIZEARRAY else sz * 2))
         in case luaM_reallocv luaC_fullgc g block sz newsize size_elems of
              (evs, Inl err, g') \<Rightarrow> (evs, Inl err, g')
            | (evs, Inr newblock, g') \<Rightarrow> (evs, Inr (newblock, newsize), g')))"

text \<open>An allocation function for concrete runs: its data is the number of requests it
  will still refuse; a request for \<open>nsize > 0\<close> bytes is refused while that number is
  positive and then gets the block at address \<open>4096\<close>; freeing returns \<open>NULL\<close>.\<close>

definition refusing_alloc :: "nat \<Rightarrow> pointer \<Rightarrow> size_t \<Rightarrow> size_t \<Rightarrow> pointer \<times> nat" where
  "refusing_alloc u p osize nsize =
     (if nsize = 0 then (0, u) else if 0 < u then (0, u - 1) else (4096, u))"

definition refusing_state :: "nat \<Rightarrow> bool \<Rightarrow> nat global_State" where
  "refusing_state k built = \<lparr>frealloc = refusing_alloc, ud = k, GCdebt = 0, version = built\<rparr>"

section \<open>String hashing (lstring.c)\<close>

text \<open>\<open>LUAI_HASHLIMIT\<close> is defined in lstring.c. \<open>LUAI_MAXSHORTLEN\<close>, the greatest length of a
  short string, comes from llimits.h, which is not among the sources: 40 is the default that
  the spec and the comments of lstring.c give.\<close>

definition LUAI_HASHLIMIT :: nat where
  "LUAI_HASHLIMIT = 5"

definition LUAI_MAXSHORTLEN :: nat where
  "LUAI_MAXSHORTLEN = 40"

text \<open>The loop of \<open>luaS_hash\<close>: \<open>for (; l >= step; l -= step) h ^= ((h<<5) + (h>>2) +
  cast_byte(str[l - 1]))\<close> on \<open>unsigned int\<close>, 32 bits. \<open>str\<close> holds the bytes, so the loop
  is meant for \<open>l \<le> length str\<close>. The test \<open>0 < step\<close> is not in the C code, where \<open>step\<close>
  is \<open>(l >> LUAI_HASHLIMIT) + 1\<close> and so never 0; it makes the function total.\<close>

function luaS_hash_loop :: "string \<Rightarrow> nat \<Rightarrow> nat \<Rightarrow> 32 word \<Rightarrow> 32 word" where
  "luaS_hash_loop str step l h =
     (if 0 < step \<and> step \<le> l
      then luaS_hash_loop str step (l - step)
             (h XOR (push_bit 5 h + drop_bit 2 h + of_char (str ! (l - 1))))
      else h)"
  by pat_completeness auto
termination
  by (relation "measure (\<lambda>(str, step, l, h). l)") auto

definition luaS_hash :: "string \<Rightarrow> nat \<Rightarrow> 32 word \<Rightarrow> 32 word" where
  "luaS_hash str l seed =
     luaS_hash_loop str (drop_bit LUAI_HASHLIMIT l + 1) l (seed XOR of_nat l)"

text \<open>The indices of \<open>str\<close> that the loop reads, in the order it reads them, and one
  round of the loop on the byte at index \<open>i\<close>. With these, \<open>luaS_hash\<close> is a fold over the
  indices it reads (lemma \<open>luaS_hash_reads\<close>).\<close>

function hash_reads_from :: "nat \<Rightarrow> nat \<Rightarrow> nat list" where
  "hash_reads_from step l =
     (if 0 < step \<and> step \<le> l then (l - 1) # hash_reads_from step (l - step) else [])"
  by pat_completeness auto
termination
  by (relation "measure (\<lambda>(step, l). l)") auto

definition hash_reads :: "nat \<Rightarrow> nat list" where
  "hash_reads l = hash_reads_from (drop_bit LUAI_HASHLIMIT l + 1) l"

definition hash_mix :: "string \<Rightarrow> 32 word \<Rightarrow> nat \<Rightarrow> 32 word" where
  "hash_mix str h i = h XOR (push_bit 5 h + drop_bit 2 h + of_char (str ! i))"

declare luaS_hash_loop.simps [simp del] hash_reads_from.simps [simp del]

section \<open>The string table (lstring.c, lobject.h)\<close>

text \<open>A short string object: the fields of \<open>TString\<close> (lobject.h) that lstring.c uses, with
  \<open>marked\<close> from the \<open>CommonHeader\<close>. \<open>getstr\<close> is the array of bytes behind the header, without
  its ending 0. The link \<open>u.hnext\<close> is not a field here: a chain of the string table is the
  list of the addresses that \<open>hnext\<close> links, from the head of the bucket to \<open>NULL\<close>.\<close>

type_synonym lu_byte = "8 word"

record TString =
  marked :: lu_byte
  extra :: lu_byte
  shrlen :: lu_byte
  hash :: "32 word"
  getstr :: string

text \<open>The part of \<open>global_State\<close> that lstring.c uses for short strings: the string table
  \<open>strt\<close> with its fields \<open>hash\<close> (the buckets), \<open>nuse\<close> and \<open>size\<close>, the \<open>seed\<close> of the hashes
  and \<open>currentwhite\<close>; \<open>heap\<close> gives the object at an address. \<open>size\<close>, an \<open>int\<close> that is never
  negative, is a natural number.\<close>

record string_State =
  strt_hash :: "nat list list"
  strt_nuse :: int
  strt_size :: nat
  g_seed :: "32 word"
  g_currentwhite :: lu_byte
  heap :: "nat \<Rightarrow> TString option"

text \<open>The colour macros of lgc.h, which is not among the sources, are parameters:
  \<open>isdead\<close> from \<open>g->currentwhite\<close> and the \<open>marked\<close> byte of the object, \<open>changewhite\<close> on
  the \<open>marked\<close> byte, \<open>luaC_white\<close> from \<open>g->currentwhite\<close>.\<close>

record gc_colours =
  isdead :: "lu_byte \<Rightarrow> lu_byte \<Rightarrow> bool"
  changewhite :: "lu_byte \<Rightarrow> lu_byte"
  luaC_white :: "lu_byte \<Rightarrow> lu_byte"

text \<open>Colours for concrete runs: the whites are the bits 0 and 1, an object is dead when
  it has the white that is not the current one, and \<open>changewhite\<close> flips the two bits.\<close>

definition two_whites :: gc_colours where
  "two_whites =
     \<lparr>isdead = (\<lambda>cw m. (m XOR 3) AND (cw XOR 3) = 0), changewhite = (\<lambda>m. m XOR 3),
      luaC_white = (\<lambda>cw. cw AND 3)\<rparr>"

text \<open>\<open>lmod(s,size)\<close> of lobject.h is \<open>cast(int, (s) & ((size)-1))\<close>, on \<open>unsigned int\<close>; the
  subtraction wraps for \<open>size = 0\<close>.\<close>

definition lmod :: "32 word \<Rightarrow> nat \<Rightarrow> nat" where
  "lmod s sz = unat (s AND (word_of_nat sz - 1))"

text \<open>The inner loop of \<open>luaS_resize\<close>: each node \<open>p\<close> of a chain goes to the head of the
  chain of its new position. Every address in a chain is that of an object.\<close>

fun rehash_chain :: "(nat \<Rightarrow> TString option) \<Rightarrow> nat \<Rightarrow> nat list \<Rightarrow> nat list list \<Rightarrow> nat list list" where
  "rehash_chain S newsize [] tb = tb"
| "rehash_chain S newsize (p # hnext) tb =
     (let h = lmod (hash (the (S p))) newsize
      in rehash_chain S newsize hnext (tb[h := p # tb ! h]))"

text \<open>One round of the outer loop: \<open>p = tb->hash[i]; tb->hash[i] = NULL\<close>, then the inner
  loop.\<close>

definition rehash_bucket :: "(nat \<Rightarrow> TString option) \<Rightarrow> nat \<Rightarrow> nat \<Rightarrow> nat list list \<Rightarrow> nat list list" where
  "rehash_bucket S newsize i tb = rehash_chain S newsize (tb ! i) (tb[i := []])"

text \<open>\<open>luaS_resize\<close>. \<open>luaM_reallocvector\<close> can fail only when the table grows; \<open>mem_ok\<close>
  says whether it succeeds, and when it does not the memory error is raised with the
  state as it was. The result is the error with the state left behind, or the new state.
  A collection that the allocation may run (lgc.c, which is not among the sources) is
  not part of the model.\<close>

definition luaS_resize ::
  "bool \<Rightarrow> string_State \<Rightarrow> nat \<Rightarrow> (lua_error \<times> string_State) + string_State" where
  "luaS_resize mem_ok g newsize =
     (if strt_size g < newsize \<and> \<not> mem_ok then Inl (LUA_ERRMEM, g)
      else
        (let tb0 = (if strt_size g < newsize
                    then strt_hash g @ replicate (newsize - strt_size g) []
                    else strt_hash g);
             tb1 = fold (rehash_bucket (heap g) newsize) [0..<strt_size g] tb0;
             tb2 = (if newsize < strt_size g then take newsize tb1 else tb1)
         in Inr (g\<lparr>strt_hash := tb2, strt_size := newsize\<rparr>)))"

text \<open>\<open>luaS_remove\<close>: the loop \<open>while (*p != ts) p = &(*p)->u.hnext\<close> unlinks the first
  node of the chain that is \<open>ts\<close>; when \<open>ts\<close> is not in the chain, or is not an object, the
  C code dereferences an invalid pointer, which is \<open>None\<close> here.\<close>

definition luaS_remove :: "string_State \<Rightarrow> nat \<Rightarrow> string_State option" where
  "luaS_remove g ts =
     (case heap g ts of
        None \<Rightarrow> None
      | Some obj \<Rightarrow>
          (let i = lmod (hash obj) (strt_size g)
           in if ts \<in> set (strt_hash g ! i)
              then Some (g\<lparr>strt_hash := (strt_hash g)[i := remove1 ts (strt_hash g ! i)],
                           strt_nuse := strt_nuse g - 1\<rparr>)
              else None))"

text \<open>\<open>MAX_INT\<close> of llimits.h is \<open>INT_MAX\<close>, for an \<open>int\<close> of 32 bits.\<close>

definition MAX_INT :: nat where
  "MAX_INT = 2147483647"

text \<open>\<open>internshrstr\<close> on the bytes \<open>str\<close>, whose number is the argument \<open>l\<close> of the C
  function. \<open>newobj\<close> is the outcome of \<open>luaC_newobj\<close> in \<open>createstrobj\<close>: the address of the
  new object, or \<open>None\<close> when the allocation fails and the memory error is raised. The
  result is the error with the state left behind, or the string with the new state.\<close>

definition internshrstr ::
  "gc_colours \<Rightarrow> bool \<Rightarrow> nat option \<Rightarrow> string_State \<Rightarrow> string \<Rightarrow>
   (lua_error \<times> string_State) + (nat \<times> string_State)" where
  "internshrstr gc mem_ok newobj g str =
     (let l = length str;
          h = luaS_hash str l (g_seed g);
          list = strt_hash g ! lmod h (strt_size g)
      in case find (\<lambda>ts. l = unat (shrlen (the (heap g ts)))
                           \<and> take l (getstr (the (heap g ts))) = str) list of
           Some ts \<Rightarrow>
             (let obj = the (heap g ts)
              in Inr (ts, if isdead gc (g_currentwhite g) (marked obj)
                          then g\<lparr>heap := (heap g)(ts \<mapsto> obj\<lparr>marked := changewhite gc (marked obj)\<rparr>)\<rparr>
                          else g))
         | None \<Rightarrow>
             (case (if int (strt_size g) \<le> strt_nuse g \<and> strt_size g \<le> MAX_INT div 2
                    then luaS_resize mem_ok g (strt_size g * 2) else Inr g) of
                Inl err \<Rightarrow> Inl err
              | Inr g1 \<Rightarrow>
                  (case newobj of
                     None \<Rightarrow> Inl (LUA_ERRMEM, g1)
                   | Some ts \<Rightarrow>
                       (let i = lmod h (strt_size g1);
                            obj = \<lparr>marked = luaC_white gc (g_currentwhite g1), extra = 0,
                                   shrlen = word_of_nat l, hash = h, getstr = str\<rparr>
                        in Inr (ts, g1\<lparr>strt_hash := (strt_hash g1)[i := ts # strt_hash g1 ! i],
                                       strt_nuse := strt_nuse g1 + 1,
                                       heap := (heap g1)(ts \<mapsto> obj)\<rparr>)))))"

text \<open>The strings in the table, and the invariant of the table: the size is a power of 2
  that an \<open>int\<close> can double into, there are as many buckets as the size says, no string is
  linked twice, every string linked in bucket \<open>j\<close> is an object whose hash is the hash of its
  bytes under the seed and is \<open>j\<close> modulo the size, and whose \<open>shrlen\<close> is the number of its
  bytes; and no two strings of the table have the same bytes.\<close>

definition in_table :: "string_State \<Rightarrow> nat set" where
  "in_table g = set (concat (strt_hash g))"

definition bytes :: "string_State \<Rightarrow> nat \<Rightarrow> string" where
  "bytes g a = getstr (the (heap g a))"

definition unique_strings :: "string_State \<Rightarrow> bool" where
  "unique_strings g = (\<forall>a \<in> in_table g. \<forall>b \<in> in_table g. (a = b) = (bytes g a = bytes g b))"

definition str_ok :: "string_State \<Rightarrow> nat \<Rightarrow> nat \<Rightarrow> bool" where
  "str_ok g j a =
     (case heap g a of
        None \<Rightarrow> False
      | Some ts \<Rightarrow>
          hash ts = luaS_hash (getstr ts) (length (getstr ts)) (g_seed g)
          \<and> lmod (hash ts) (strt_size g) = j
          \<and> unat (shrlen ts) = length (getstr ts))"

definition strt_wf :: "string_State \<Rightarrow> bool" where
  "strt_wf g =
     ((\<exists>k. k \<le> 30 \<and> strt_size g = 2 ^ k)
      \<and> length (strt_hash g) = strt_size g
      \<and> distinct (concat (strt_hash g))
      \<and> (\<forall>j < length (strt_hash g). \<forall>a \<in> set (strt_hash g ! j). str_ok g j a)
      \<and> unique_strings g)"

text \<open>A table for concrete runs: one bucket, and the string \<open>abc\<close> at address 16.\<close>

definition one_string :: string_State where
  "one_string =
     \<lparr>strt_hash = [[16]], strt_nuse = 1, strt_size = 1, g_seed = 0,
      g_currentwhite = 1,
      heap = [16 \<mapsto> \<lparr>marked = 1, extra = 0, shrlen = 3, hash = 198887, getstr = ''abc''\<rparr>]\<rparr>"

chapter \<open>Properties\<close>

section \<open>Integer arithmetic wraps around; division and modulo by zero raise\<close>

lemma sint_wrap64: "sint (word_of_int k :: lua_Integer) = wrap64 k"
  by (simp add: int_word_sint wrap64_def)

lemma wrap64_range: "- (2 ^ 63) \<le> wrap64 k \<and> wrap64 k < 2 ^ 63"
  by (simp add: wrap64_def)

lemma wrap64_exact: "- (2 ^ 63) \<le> k \<Longrightarrow> k < 2 ^ 63 \<Longrightarrow> wrap64 k = k"
  by (simp add: wrap64_def)

lemma wrap64_cong: "(wrap64 k - k) mod 2 ^ 64 = 0"
  unfolding wrap64_def by (simp add: algebra_simps mod_simps)

lemma intarith_add_sint: "intarith LUA_OPADD v1 v2 = Inr (word_of_int (sint v1 + sint v2))"
  by simp

lemma intarith_sub_sint: "intarith LUA_OPSUB v1 v2 = Inr (word_of_int (sint v1 - sint v2))"
  by simp

lemma intarith_mul_sint: "intarith LUA_OPMUL v1 v2 = Inr (word_of_int (sint v1 * sint v2))"
  by simp

lemma intarith_unm_sint: "intarith LUA_OPUNM v1 v2 = Inr (word_of_int (- sint v1))"
  by simp

lemma luaV_div_raises: "(\<exists>e. luaV_div m n = Inl e) = (n = 0)"
  by (simp add: luaV_div_def)

lemma luaV_mod_raises: "(\<exists>e. luaV_mod m n = Inl e) = (n = 0)"
  by (simp add: luaV_mod_def)

text \<open>Claim C8. For all integer operands, \<open>intarith\<close> computes addition, subtraction,
  multiplication and unary minus as the exact result reduced modulo \<open>2 ^ 64\<close> in two's
  complement, and returns it (no error on overflow); integer division and modulo return
  an error exactly when the divisor is zero.\<close>

theorem intarith_wraps_and_division_by_zero_raises:
  "map_sum id sint (intarith LUA_OPADD v1 v2) = Inr (wrap64 (sint v1 + sint v2))
   \<and> map_sum id sint (intarith LUA_OPSUB v1 v2) = Inr (wrap64 (sint v1 - sint v2))
   \<and> map_sum id sint (intarith LUA_OPMUL v1 v2) = Inr (wrap64 (sint v1 * sint v2))
   \<and> map_sum id sint (intarith LUA_OPUNM v1 v2) = Inr (wrap64 (- sint v1))
   \<and> ((\<exists>e. intarith LUA_OPIDIV v1 v2 = Inl e) = (v2 = 0))
   \<and> ((\<exists>e. intarith LUA_OPMOD v1 v2 = Inl e) = (v2 = 0))"
  by (simp only: intarith_add_sint intarith_sub_sint intarith_mul_sint intarith_unm_sint
        intarith.simps luaV_div_raises luaV_mod_raises map_sum.simps sint_wrap64 id_apply simp_thms)

section \<open>The allocation trampoline\<close>

lemma luaM_realloc_first_ok:
  "fst (frealloc g (ud g) block osize nsize) \<noteq> 0 \<or> nsize = 0 \<Longrightarrow>
   luaM_realloc gc g block osize nsize =
     ([Frealloc block osize nsize (fst (frealloc g (ud g) block osize nsize))],
      Inr (fst (frealloc g (ud g) block osize nsize)),
      g\<lparr>ud := snd (frealloc g (ud g) block osize nsize),
        GCdebt := (GCdebt g + nsize) - (if block \<noteq> 0 then osize else 0)\<rparr>)"
  by (auto simp add: luaM_realloc_def Let_def case_prod_beta word_greater_zero_iff)

lemma luaM_realloc_not_built:
  "fst (frealloc g (ud g) block osize nsize) = 0 \<Longrightarrow> nsize \<noteq> 0 \<Longrightarrow> \<not> version g \<Longrightarrow>
   luaM_realloc gc g block osize nsize =
     ([Frealloc block osize nsize 0], Inl LUA_ERRMEM,
      g\<lparr>ud := snd (frealloc g (ud g) block osize nsize)\<rparr>)"
  by (simp add: luaM_realloc_def Let_def case_prod_beta word_greater_zero_iff)

lemma luaM_realloc_retry:
  "fst (frealloc g (ud g) block osize nsize) = 0 \<Longrightarrow> nsize \<noteq> 0 \<Longrightarrow> version g \<Longrightarrow>
   luaM_realloc gc g block osize nsize =
     (let g2 = gc (g\<lparr>ud := snd (frealloc g (ud g) block osize nsize)\<rparr>);
          r2 = frealloc g2 (ud g2) block osize nsize;
          evs = [Frealloc block osize nsize 0, FullGC True, Frealloc block osize nsize (fst r2)]
      in if fst r2 = 0 then (evs, Inl LUA_ERRMEM, g2\<lparr>ud := snd r2\<rparr>)
         else (evs, Inr (fst r2),
               g2\<lparr>ud := snd r2,
                  GCdebt := (GCdebt g2 + nsize) - (if block \<noteq> 0 then osize else 0)\<rparr>))"
  by (simp add: luaM_realloc_def Let_def case_prod_beta word_greater_zero_iff)

text \<open>Claim C2. When the first call of the allocation function fails for \<open>nsize > 0\<close> and
  the state is fully built, \<open>luaM_realloc_\<close> runs one full collection in emergency mode and
  calls the allocation function once more, with the same arguments: these three are all
  the calls it makes; if that call fails too the result is the error \<open>LUA_ERRMEM\<close>, else
  its block. On every successful call the debt is the debt before the assignment (the one
  the collection left, when it ran) plus \<open>nsize\<close> minus the old size, the old size being 0
  for a null block.\<close>

theorem luaM_realloc_emergency_retry_and_debt:
  "(fst (frealloc g (ud g) block osize nsize) = 0 \<and> 0 < nsize \<and> version g \<longrightarrow>
      (let g2 = luaC_fullgc (g\<lparr>ud := snd (frealloc g (ud g) block osize nsize)\<rparr>);
           r2 = frealloc g2 (ud g2) block osize nsize
       in fst (luaM_realloc luaC_fullgc g block osize nsize) =
            [Frealloc block osize nsize 0, FullGC True, Frealloc block osize nsize (fst r2)]
          \<and> fst (snd (luaM_realloc luaC_fullgc g block osize nsize)) =
            (if fst r2 = 0 then Inl LUA_ERRMEM else Inr (fst r2))))
   \<and> (luaM_realloc luaC_fullgc g block osize nsize = (evs, Inr p, g') \<longrightarrow>
        GCdebt g' =
          GCdebt (if FullGC True \<in> set evs
                  then luaC_fullgc (g\<lparr>ud := snd (frealloc g (ud g) block osize nsize)\<rparr>)
                  else g)
          + nsize - (if block = 0 then 0 else osize))"
proof (intro conjI impI)
  assume a: "fst (frealloc g (ud g) block osize nsize) = 0 \<and> 0 < nsize \<and> version g"
  then have n: "nsize \<noteq> 0" by auto
  show "let g2 = luaC_fullgc (g\<lparr>ud := snd (frealloc g (ud g) block osize nsize)\<rparr>);
           r2 = frealloc g2 (ud g2) block osize nsize
       in fst (luaM_realloc luaC_fullgc g block osize nsize) =
            [Frealloc block osize nsize 0, FullGC True, Frealloc block osize nsize (fst r2)]
          \<and> fst (snd (luaM_realloc luaC_fullgc g block osize nsize)) =
            (if fst r2 = 0 then Inl LUA_ERRMEM else Inr (fst r2))"
    using a n by (simp add: luaM_realloc_retry Let_def)
next
  assume r: "luaM_realloc luaC_fullgc g block osize nsize = (evs, Inr p, g')"
  show "GCdebt g' =
          GCdebt (if FullGC True \<in> set evs
                  then luaC_fullgc (g\<lparr>ud := snd (frealloc g (ud g) block osize nsize)\<rparr>)
                  else g)
          + nsize - (if block = 0 then 0 else osize)"
  proof (cases "fst (frealloc g (ud g) block osize nsize) \<noteq> 0 \<or> nsize = 0")
    case True
    from r show ?thesis
      unfolding luaM_realloc_first_ok [OF True] by auto
  next
    case False
    then have f: "fst (frealloc g (ud g) block osize nsize) = 0" and n: "nsize \<noteq> 0" by auto
    show ?thesis
    proof (cases "version g")
      case True
      from r show ?thesis
        unfolding luaM_realloc_retry [OF f n True] by (auto simp: Let_def split: if_splits)
    next
      case False
      from r show ?thesis
        unfolding luaM_realloc_not_built [OF f n False] by simp
    qed
  qed
qed

theorem luaM_realloc_emergency_retry_witness:
  "fst (frealloc (refusing_state 1 True) (ud (refusing_state 1 True)) 0 0 16) = 0
   \<and> (0 :: size_t) < 16 \<and> version (refusing_state 1 True)
   \<and> luaM_realloc (\<lambda>g. g) (refusing_state 1 True) 0 0 16 =
       ([Frealloc 0 0 16 0, FullGC True, Frealloc 0 0 16 4096], Inr 4096,
        (refusing_state 0 True)\<lparr>GCdebt := 16\<rparr>)
   \<and> fst (snd (luaM_realloc (\<lambda>g. g) (refusing_state 2 True) 0 0 16)) = Inl LUA_ERRMEM"
  using luaM_realloc_emergency_retry_and_debt
          [of "refusing_state 1 True" 0 0 16 "\<lambda>g. g"
              "[Frealloc 0 0 16 0, FullGC True, Frealloc 0 0 16 4096]" 4096
              "(refusing_state 0 True)\<lparr>GCdebt := 16\<rparr>"]
        luaM_realloc_emergency_retry_and_debt
          [of "refusing_state 2 True" 0 0 16 "\<lambda>g. g" "[]" 0 "refusing_state 0 True"]
  by (simp add: luaM_realloc_def refusing_state_def refusing_alloc_def Let_def)

section \<open>Vector growth\<close>

lemma luaM_growaux_at_limit:
  "0 \<le> limit \<Longrightarrow> limit \<le> sz \<Longrightarrow>
   luaM_growaux gc g block sz size_elems limit what =
     ([], Inl (LUA_ERRRUN (''too many '' @ what @ '' (limit is '' @ fmt_d limit @ '')'')), g)"
proof -
  assume "0 \<le> limit" "limit \<le> sz"
  then have "c_half limit \<le> sz \<and> limit \<le> sz" by (simp add: c_half_def)
  then show ?thesis by (simp add: luaM_growaux_def del: append.simps)
qed

lemma luaM_growaux_newsize:
  assumes "sz < limit"
      and "luaM_growaux gc g block sz size_elems limit what = (evs, Inr (p, n), g')"
  shows "n = (if c_half limit \<le> sz then limit else max 4 (2 * sz))"
  using assms
  by (auto simp add: luaM_growaux_def MINSIZEARRAY_def Let_def max_def
           split: prod.splits sum.splits if_splits)

lemma growaux_bounds:
  "0 \<le> sz \<Longrightarrow> sz < limit \<Longrightarrow> 4 \<le> limit \<Longrightarrow>
   n = (if c_half limit \<le> sz then limit else max 4 (2 * sz)) \<Longrightarrow>
   4 \<le> n \<and> n \<le> limit \<and> sz < n"
  by (auto simp add: c_half_def max_def split: if_splits)

text \<open>Claim C6, as the code has it. For a size \<open>sz \<ge> 0\<close>: at the limit (\<open>limit \<le> sz\<close>)
  \<open>luaM_growaux_\<close> raises the runtime error \<open>too many X (limit is N)\<close> and allocates
  nothing; below the limit, when the reallocation succeeds, the new capacity is the limit
  if \<open>sz\<close> has reached half the limit (\<open>limit/2\<close> in integer division), and else twice the
  old capacity, raised to 4 when that is less. When the limit is at least 4 the new
  capacity is at least 4, at most the limit and more than the old capacity.\<close>

theorem luaM_growaux_policy:
  "(0 \<le> limit \<and> limit \<le> sz \<longrightarrow>
      luaM_growaux luaC_fullgc g block sz size_elems limit what =
        ([], Inl (LUA_ERRRUN (''too many '' @ what @ '' (limit is '' @ fmt_d limit @ '')'')), g))
   \<and> (0 \<le> sz \<and> sz < limit \<and>
        luaM_growaux luaC_fullgc g block sz size_elems limit what = (evs, Inr (p, n), g') \<longrightarrow>
          n = (if limit div 2 \<le> sz then limit else max 4 (2 * sz))
          \<and> (4 \<le> limit \<longrightarrow> 4 \<le> n \<and> n \<le> limit \<and> sz < n))"
proof (intro conjI impI)
  assume "0 \<le> limit \<and> limit \<le> sz"
  then show "luaM_growaux luaC_fullgc g block sz size_elems limit what =
        ([], Inl (LUA_ERRRUN (''too many '' @ what @ '' (limit is '' @ fmt_d limit @ '')'')), g)"
    by (simp add: luaM_growaux_at_limit)
next
  assume a: "0 \<le> sz \<and> sz < limit \<and>
        luaM_growaux luaC_fullgc g block sz size_elems limit what = (evs, Inr (p, n), g')"
  then have h: "c_half limit = limit div 2" by (simp add: c_half_def)
  from a have n: "n = (if c_half limit \<le> sz then limit else max 4 (2 * sz))"
    using luaM_growaux_newsize by blast
  then show "n = (if limit div 2 \<le> sz then limit else max 4 (2 * sz))"
    by (simp add: h)
  assume "4 \<le> limit"
  with a n growaux_bounds [of sz limit n]
  show "4 \<le> n" "n \<le> limit" "sz < n" by blast+
qed

theorem luaM_growaux_policy_witness:
  "luaM_growaux (\<lambda>g. g) (refusing_state 0 True) 0 255 8 255 ''upvalues'' =
     ([], Inl (LUA_ERRRUN ''too many upvalues (limit is 255)''), refusing_state 0 True)
   \<and> luaM_growaux (\<lambda>g. g) (refusing_state 0 True) 0 0 8 255 ''upvalues'' =
     ([Frealloc 0 0 32 4096], Inr (4096, 4), (refusing_state 0 True)\<lparr>GCdebt := 32\<rparr>)
   \<and> luaM_growaux (\<lambda>g. g) (refusing_state 0 True) 7 100 8 255 ''upvalues'' =
     ([Frealloc 7 800 1600 4096], Inr (4096, 200), (refusing_state 0 True)\<lparr>GCdebt := 800\<rparr>)
   \<and> luaM_growaux (\<lambda>g. g) (refusing_state 0 True) 7 200 8 255 ''upvalues'' =
     ([Frealloc 7 1600 2040 4096], Inr (4096, 255), (refusing_state 0 True)\<lparr>GCdebt := 440\<rparr>)"
  using luaM_growaux_policy [of 255 255 "\<lambda>g. g" "refusing_state 0 True" 0 8 "''upvalues''"]
        luaM_growaux_policy [of 255 200 "\<lambda>g. g" "refusing_state 0 True" 7 8 "''upvalues''"
           "[Frealloc 7 1600 2040 4096]" 4096 255 "(refusing_state 0 True)\<lparr>GCdebt := 440\<rparr>"]
  by (simp add: luaM_growaux_def luaM_reallocv_def luaM_realloc_def c_half_def MINSIZEARRAY_def
        refusing_state_def refusing_alloc_def Let_def fmt_d_def)

text \<open>Claim C6, as stated, fails where the limit is below 4 and where the limit is odd
  and \<open>sz\<close> is half of it: from capacity 1 under the limit 3 the vector grows to 3 slots,
  fewer than 4; from capacity 3 under the limit 7 it grows to 7, which is not the double
  6 that the limit 7 would allow.\<close>

theorem luaM_growaux_below_minimum_counterexample:
  "luaM_growaux (\<lambda>g. g) (refusing_state 0 True) 7 1 8 3 ''items'' =
     ([Frealloc 7 8 24 4096], Inr (4096, 3), (refusing_state 0 True)\<lparr>GCdebt := 16\<rparr>)
   \<and> luaM_growaux (\<lambda>g. g) (refusing_state 0 True) 7 3 8 7 ''items'' =
     ([Frealloc 7 24 56 4096], Inr (4096, 7), (refusing_state 0 True)\<lparr>GCdebt := 32\<rparr>)"
  by (simp add: luaM_growaux_def luaM_reallocv_def luaM_realloc_def c_half_def MINSIZEARRAY_def
        refusing_state_def refusing_alloc_def Let_def)

section \<open>The string hash\<close>

lemma luaS_hash_loop_reads:
  "luaS_hash_loop str step l h = foldl (hash_mix str) h (hash_reads_from step l)"
proof (induction str step l h rule: luaS_hash_loop.induct)
  case (1 str step l h)
  show ?case
  proof (cases "0 < step \<and> step \<le> l")
    case True
    have "luaS_hash_loop str step l h =
            luaS_hash_loop str step (l - step) (hash_mix str h (l - 1))"
      using True by (subst luaS_hash_loop.simps) (simp add: hash_mix_def)
    also have "\<dots> = foldl (hash_mix str) (hash_mix str h (l - 1)) (hash_reads_from step (l - step))"
      unfolding hash_mix_def [of str h "l - 1"] using 1 [OF True] .
    also have "\<dots> = foldl (hash_mix str) h (hash_reads_from step l)"
      using True by (subst (2) hash_reads_from.simps) simp
    finally show ?thesis .
  next
    case False
    then show ?thesis
      by (subst luaS_hash_loop.simps, subst hash_reads_from.simps) auto
  qed
qed

lemma luaS_hash_reads:
  "luaS_hash str l seed = foldl (hash_mix str) (seed XOR of_nat l) (hash_reads l)"
  by (simp add: luaS_hash_def hash_reads_def luaS_hash_loop_reads)

lemma hash_reads_from_step1: "hash_reads_from (Suc 0) l = rev [0..<l]"
proof (induction l)
  case 0
  show ?case by (subst hash_reads_from.simps) simp
next
  case (Suc l)
  then show ?case by (subst hash_reads_from.simps) simp
qed

lemma hash_reads_upto_31: "l < 32 \<Longrightarrow> hash_reads l = rev [0..<l]"
  by (simp add: hash_reads_def LUAI_HASHLIMIT_def drop_bit_eq_div hash_reads_from_step1)

lemma hash_reads_from_bound: "p \<in> set (hash_reads_from step l) \<Longrightarrow> p < l"
proof (induction step l rule: hash_reads_from.induct)
  case (1 step l)
  show ?case
  proof (cases "0 < step \<and> step \<le> l")
    case True
    with 1 show ?thesis
      by (subst (asm) (2) hash_reads_from.simps) (auto split: if_splits)
  next
    case False
    with 1(2) show ?thesis
      by (subst (asm) hash_reads_from.simps) simp
  qed
qed

lemma hash_reads_from_skips:
  assumes "2 \<le> step" "step \<le> l"
  shows "l - 2 \<notin> set (hash_reads_from step l)"
proof
  assume "l - 2 \<in> set (hash_reads_from step l)"
  then have "l - 2 = l - 1 \<or> l - 2 \<in> set (hash_reads_from step (l - step))"
    using assms by (subst (asm) hash_reads_from.simps) (auto split: if_splits)
  then show False
    using assms hash_reads_from_bound [of "l - 2" step "l - step"] by auto
qed

lemma hash_reads_from_32: "32 \<le> l \<Longrightarrow> l - 2 \<notin> set (hash_reads l)"
proof -
  assume l: "32 \<le> l"
  have "l div 32 < l" using l by (simp add: div_less_dividend)
  moreover have "1 \<le> l div 32" using l by (simp add: Suc_le_eq div_greater_zero_iff)
  ultimately show ?thesis
    unfolding hash_reads_def LUAI_HASHLIMIT_def drop_bit_eq_div
    by (intro hash_reads_from_skips) auto
qed

lemma hash_reads_32: "hash_reads 32 = [31, 29, 27, 25, 23, 21, 19, 17, 15, 13, 11, 9, 7, 5, 3, 1]"
  by (simp add: hash_reads_def LUAI_HASHLIMIT_def drop_bit_eq_div hash_reads_from.simps)

lemma hash_reads_agree:
  "map ((!) s1) (hash_reads l) = map ((!) s2) (hash_reads l) \<Longrightarrow>
   luaS_hash s1 l seed = luaS_hash s2 l seed"
proof -
  have "\<And>h. map ((!) s1) is = map ((!) s2) is \<Longrightarrow>
          foldl (hash_mix s1) h is = foldl (hash_mix s2) h is" for "is"
    by (induction "is") (simp_all add: hash_mix_def)
  then show "map ((!) s1) (hash_reads l) = map ((!) s2) (hash_reads l) \<Longrightarrow>
    luaS_hash s1 l seed = luaS_hash s2 l seed"
    by (simp add: luaS_hash_reads)
qed

text \<open>Claim C5, as the code has it. \<open>luaS_hash\<close> folds one round of mixing over the bytes at
  the indices \<open>l - 1, l - 1 - step, \<dots>\<close> with \<open>step = (l >> 5) + 1\<close>, and two strings that
  agree at these indices get the same hash. For a length up to 31 these are all the indices,
  from the last byte to the first: every byte takes part. From length 32 on, which includes
  the short strings of 32 to 40 bytes, the step is at least 2 and the byte at index \<open>l - 2\<close>
  is never read.\<close>

theorem luaS_hash_stride:
  "luaS_hash str l seed = foldl (hash_mix str) (seed XOR of_nat l) (hash_reads l)
   \<and> (map ((!) str) (hash_reads l) = map ((!) str') (hash_reads l) \<longrightarrow>
        luaS_hash str l seed = luaS_hash str' l seed)
   \<and> (l < 32 \<longrightarrow> hash_reads l = rev [0..<l])
   \<and> (32 \<le> l \<longrightarrow> l - 2 \<notin> set (hash_reads l))"
  using luaS_hash_reads hash_reads_agree hash_reads_upto_31 hash_reads_from_32 by blast

theorem luaS_hash_stride_witness:
  "(3::nat) < 32 \<and> hash_reads 3 = [2, 1, 0] \<and> luaS_hash ''abc'' 3 0 = 198887
   \<and> map ((!) ''abc'') (hash_reads 3) = map ((!) ''abc'') (hash_reads 3)
   \<and> (32::nat) \<le> 40 \<and> 38 \<notin> set (hash_reads 40)"
  using luaS_hash_stride [of "''abc''" 3 0 "''abc''"]
        luaS_hash_stride [of "''0123456789012345678901234567890123456789''" 40 0 "[]"]
  by (simp add: hash_reads_def LUAI_HASHLIMIT_def hash_reads_from.simps drop_bit_eq_div
        hash_mix_def)

text \<open>Claim C5, as stated, fails for the short strings of 32 to 40 bytes: a string of 32
  bytes is short, its hash reads the odd indices only, and two such strings that differ in
  their first byte have the same hash under every seed.\<close>

theorem luaS_hash_short_string_counterexample:
  "length ''axxxxxxxxxxxxxxxxxxxxxxxxxxxxxxx'' = 32 \<and> 32 \<le> LUAI_MAXSHORTLEN
   \<and> hash_reads 32 = [31, 29, 27, 25, 23, 21, 19, 17, 15, 13, 11, 9, 7, 5, 3, 1]
   \<and> (\<forall>seed. luaS_hash ''axxxxxxxxxxxxxxxxxxxxxxxxxxxxxxx'' 32 seed
               = luaS_hash ''bxxxxxxxxxxxxxxxxxxxxxxxxxxxxxxx'' 32 seed)"
  by (simp add: LUAI_MAXSHORTLEN_def hash_reads_32 hash_reads_agree)

section \<open>Numerals: hexadecimal wrap-around, decimal overflow\<close>

lemma lisdigit_not_space: "lisdigit c \<Longrightarrow> \<not> lisspace c"
  by (auto simp: lisdigit_def lisspace_def)

lemma lisdigit_not_sign: "lisdigit c \<Longrightarrow> c \<noteq> CHR ''-'' \<and> c \<noteq> CHR ''+'' \<and> c \<noteq> CHR ''x'' \<and> c \<noteq> CHR ''X''"
  by (auto simp: lisdigit_def)

lemma or32_upper: "65 \<le> k \<Longrightarrow> k \<le> 70 \<Longrightarrow> (int k OR 32) = int k + 32"
proof -
  assume "65 \<le> k" "k \<le> 70"
  then have "k = 65 \<or> k = 66 \<or> k = 67 \<or> k = 68 \<or> k = 69 \<or> k = 70" by arith
  then show ?thesis by auto
qed

lemma or32_lower: "97 \<le> k \<Longrightarrow> k \<le> 102 \<Longrightarrow> (int k OR 32) = int k"
proof -
  assume "97 \<le> k" "k \<le> 102"
  then have "k = 97 \<or> k = 98 \<or> k = 99 \<or> k = 100 \<or> k = 101 \<or> k = 102" by arith
  then show ?thesis by auto
qed

lemma of_char_int_nat: "(of_char c :: int) = int (of_char c :: nat)"
  by (simp add: of_char_def)

lemma luaO_hexavalue_range: "lisxdigit c \<Longrightarrow> 0 \<le> luaO_hexavalue c \<and> luaO_hexavalue c < 16"
  unfolding lisxdigit_def luaO_hexavalue_def ltolower_def lisdigit_def of_char_int_nat
  using or32_upper [of "of_char c"] or32_lower [of "of_char c"]
  by auto


lemma str2int_hex_digits:
  "\<forall>c \<in> set ds. lisxdigit c \<Longrightarrow>
   str2int_hex ds (word_of_nat n) emp = (word_of_nat (foldl hex_step n ds), emp \<and> ds = [], [])"
proof (induction ds arbitrary: n emp)
  case Nil
  show ?case by simp
next
  case (Cons c ds)
  then have x: "lisxdigit c" and rest: "\<forall>c \<in> set ds. lisxdigit c" by auto
  from luaO_hexavalue_range [OF x]
  have "(word_of_nat n :: 64 word) * 16 + word_of_int (luaO_hexavalue c) = word_of_nat (hex_step n c)"
    by (simp add: hex_step_def)
  with x Cons.IH [OF rest, of "hex_step n c" False] show ?case by simp
qed

lemma foldl_dec_step_mono: "n \<le> foldl dec_step n ds"
proof (induction ds arbitrary: n)
  case Nil
  show ?case by simp
next
  case (Cons c ds)
  have "n \<le> dec_step n c" by (simp add: dec_step_def)
  also have "\<dots> \<le> foldl dec_step (dec_step n c) ds" by (rule Cons.IH)
  finally show ?case by simp
qed

lemma MAXBY10_value: "unat MAXBY10 = 922337203685477580"
  by (simp add: MAXBY10_def LUA_MAXINTEGER_def)

lemma MAXLASTD_value: "MAXLASTD = 7"
  by (simp add: MAXLASTD_def LUA_MAXINTEGER_def)

lemma dec_overflow_test:
  assumes n: "n \<le> 9223372036854775808" and c: "lisdigit c"
  shows "(MAXBY10 \<le> (word_of_nat n :: 64 word) \<and>
          (MAXBY10 < word_of_nat n \<or> MAXLASTD + (if neg then 1 else 0) < of_char c - 48))
         = (9223372036854775807 + (if neg then 1 else 0) < dec_step n c)"
proof -
  have u: "unat (word_of_nat n :: 64 word) = n"
    using n by (simp add: unat_of_nat take_bit_nat_eq_self)
  define d where "d = (of_char c :: nat) - 48"
  have d: "(of_char c :: nat) = 48 + d" "d \<le> 9"
    using c by (auto simp: lisdigit_def d_def)
  have di: "(of_char c :: int) - 48 = int d"
    using d by (simp add: of_char_int_nat)
  show ?thesis
    unfolding word_le_nat_alt word_less_nat_alt u MAXBY10_value MAXLASTD_value dec_step_def di
    using d by (auto split: if_splits)
qed

lemma str2int_dec_digits:
  assumes "\<forall>c \<in> set ds. lisdigit c" and "n \<le> 9223372036854775807 + (if neg then 1 else 0)"
  shows "str2int_dec ds neg (word_of_nat n) emp =
           (if foldl dec_step n ds \<le> 9223372036854775807 + (if neg then 1 else 0)
            then Some (word_of_nat (foldl dec_step n ds), emp \<and> ds = [], []) else None)"
  using assms
proof (induction ds arbitrary: n emp)
  case Nil
  then show ?case by simp
next
  case (Cons c ds)
  then have c: "lisdigit c" and rest: "\<forall>c \<in> set ds. lisdigit c" by auto
  have n: "n \<le> 9223372036854775808" using Cons.prems(2) by (simp split: if_splits)
  note t = dec_overflow_test [OF n c, of neg]
  define d where "d = (of_char c :: nat) - 48"
  have d: "(of_char c :: nat) = 48 + d"
    using c by (auto simp: lisdigit_def d_def)
  have w: "(word_of_nat n :: 64 word) * 10 + word_of_int (of_char c - 48) = word_of_nat (dec_step n c)"
    using d by (simp add: dec_step_def of_char_int_nat)
  have step: "str2int_dec (c # ds) neg (word_of_nat n) emp =
      (if 9223372036854775807 + (if neg then 1 else 0) < dec_step n c then None
       else str2int_dec ds neg (word_of_nat (dec_step n c)) False)"
    by (simp only: str2int_dec.simps c if_True Let_def t w)
  show ?case
  proof (cases "9223372036854775807 + (if neg then 1 else 0) < dec_step n c")
    case True
    with foldl_dec_step_mono [of "dec_step n c" ds]
    have "\<not> foldl dec_step (dec_step n c) ds \<le> 9223372036854775807 + (if neg then 1 else 0)"
      by simp
    with True show ?thesis unfolding step by simp
  next
    case False
    then have le: "dec_step n c \<le> 9223372036854775807 + (if neg then 1 else 0)" by simp
    from False Cons.IH [OF rest le, of False] show ?thesis
      unfolding step by simp
  qed
qed

lemma c_str_no_zero: "\<forall>c \<in> set s. c \<noteq> CHR 0x00 \<Longrightarrow> c_str s = s"
  by (simp add: c_str_def)

lemma lisxdigit_not_zero: "lisxdigit c \<Longrightarrow> c \<noteq> CHR 0x00"
  by (auto simp: lisxdigit_def lisdigit_def)

lemma lisdigit_xdigit: "lisdigit c \<Longrightarrow> lisxdigit c"
  by (simp add: lisxdigit_def)

lemma unat_word_of_nat64: "unat (word_of_nat n :: 64 word) = n mod 2 ^ 64"
  by (simp add: unat_of_nat take_bit_eq_mod)

lemma l_str2int_hex:
  assumes ds: "ds \<noteq> []" "\<forall>c \<in> set ds. lisxdigit c" and p: "p = ''0x'' \<or> p = ''0X''"
  shows "l_str2int (p @ ds) = Some (word_of_nat (foldl hex_step 0 ds), length ds + 2)"
proof -
  have h: "str2int_hex ds 0 True = (word_of_nat (foldl hex_step 0 ds), False, [])"
    using str2int_hex_digits [OF ds(2), of 0 True] ds(1) by simp
  have sp: "\<not> lisspace CHR ''0''" by (simp add: lisspace_def)
  from p show ?thesis
    by (auto simp add: l_str2int_def sp h)
qed

lemma l_str2int_dec:
  assumes ds: "ds \<noteq> []" "\<forall>c \<in> set ds. lisdigit c"
  shows "l_str2int ds =
           (if foldl dec_step 0 ds \<le> 9223372036854775807
            then Some (word_of_nat (foldl dec_step 0 ds), length ds) else None)"
proof -
  obtain c cs where s: "ds = c # cs" using ds(1) by (cases ds) auto
  then have c: "lisdigit c" using ds(2) by simp
  have d: "str2int_dec ds False 0 True =
             (if foldl dec_step 0 ds \<le> 9223372036854775807
              then Some (word_of_nat (foldl dec_step 0 ds), False, []) else None)"
    using str2int_dec_digits [OF ds(2), of 0 False True] ds(1) by simp
  have r: "(case ds of
              c0 # c1 # s2 \<Rightarrow>
                if c0 = CHR ''0'' \<and> (c1 = CHR ''x'' \<or> c1 = CHR ''X'')
                then Some (str2int_hex s2 0 True)
                else str2int_dec ds False 0 True
            | _ \<Rightarrow> str2int_dec ds False 0 True) = str2int_dec ds False 0 True"
    using lisdigit_not_sign ds(2) by (auto split: list.splits)
  have pre: "isneg (dropWhile lisspace ds) = (False, ds)"
    using c lisdigit_not_space [OF c] lisdigit_not_sign [OF c] by (simp add: s)
  have "l_str2int ds =
          (case str2int_dec ds False 0 True of
             None \<Rightarrow> None
           | Some (a, emp, s3) \<Rightarrow>
               (let s4 = dropWhile lisspace s3
                in if emp \<or> s4 \<noteq> [] then None
                   else Some (if False then 0 - a else a, length ds - length s4)))"
    by (simp only: l_str2int_def pre Let_def prod.case r)
  then show ?thesis
    by (simp add: d)
qed


lemma luaO_str2num_int:
  "l_str2int (c_str s) = Some (i, e) \<Longrightarrow> luaO_str2num fp s = (e + 1, Some (TNUMINT i))"
  by (simp add: luaO_str2num_def)

text \<open>Claim C10. For every string \<open>0x\<close> (or \<open>0X\<close>) followed by one or more hexadecimal
  digits, \<open>l_str2int\<close> succeeds with the value of the digits, accumulated as \<open>a * 16 + d\<close>,
  reduced modulo \<open>2 ^ 64\<close>: there is no overflow test. \<open>luaO_str2num\<close> then returns that
  integer whatever the float conversion would do, and \<open>lua_stringtonumber\<close> pushes it. A
  string of decimal digits is accepted by \<open>l_str2int\<close> with its exact value when the value
  is at most \<open>LUA_MAXINTEGER\<close> and rejected when it exceeds it.\<close>

theorem hex_numerals_wrap_and_decimal_overflow_rejected:
  "(ds \<noteq> [] \<and> (\<forall>c \<in> set ds. lisxdigit c) \<and> (p = ''0x'' \<or> p = ''0X'') \<longrightarrow>
      l_str2int (p @ ds) = Some (word_of_nat (foldl hex_step 0 ds), length ds + 2)
      \<and> unat (word_of_nat (foldl hex_step 0 ds) :: lua_Integer) = foldl hex_step 0 ds mod 2 ^ 64
      \<and> luaO_str2num fp (p @ ds) =
          (length ds + 3, Some (TNUMINT (word_of_nat (foldl hex_step 0 ds))))
      \<and> lua_stringtonumber fp L (p @ ds) =
          map_option (Pair (length ds + 3))
            (api_incr_top
               (L\<lparr>stack := (stack L)[topL L := TNUMINT (word_of_nat (foldl hex_step 0 ds))]\<rparr>)))
   \<and> (ds \<noteq> [] \<and> (\<forall>c \<in> set ds. lisdigit c) \<longrightarrow>
        l_str2int ds =
          (if int (foldl dec_step 0 ds) \<le> LUA_MAXINTEGER
           then Some (word_of_nat (foldl dec_step 0 ds), length ds) else None))"
proof (intro conjI impI)
  assume a: "ds \<noteq> [] \<and> (\<forall>c \<in> set ds. lisxdigit c) \<and> (p = ''0x'' \<or> p = ''0X'')"
  then have i: "l_str2int (p @ ds) = Some (word_of_nat (foldl hex_step 0 ds), length ds + 2)"
    using l_str2int_hex by blast
  then show "l_str2int (p @ ds) = Some (word_of_nat (foldl hex_step 0 ds), length ds + 2)" .
  show "unat (word_of_nat (foldl hex_step 0 ds) :: lua_Integer) = foldl hex_step 0 ds mod 2 ^ 64"
    by (rule unat_word_of_nat64)
  have "\<forall>c \<in> set (p @ ds). c \<noteq> CHR 0x00"
    using a lisxdigit_not_zero by auto
  then have "c_str (p @ ds) = p @ ds" by (rule c_str_no_zero)
  with i show n: "luaO_str2num fp (p @ ds) =
          (length ds + 3, Some (TNUMINT (word_of_nat (foldl hex_step 0 ds))))"
    by (simp add: luaO_str2num_int)
  show "lua_stringtonumber fp L (p @ ds) =
          map_option (Pair (length ds + 3))
            (api_incr_top
               (L\<lparr>stack := (stack L)[topL L := TNUMINT (word_of_nat (foldl hex_step 0 ds))]\<rparr>))"
    by (simp add: lua_stringtonumber_def n)
next
  assume "ds \<noteq> [] \<and> (\<forall>c \<in> set ds. lisdigit c)"
  then show "l_str2int ds =
          (if int (foldl dec_step 0 ds) \<le> LUA_MAXINTEGER
           then Some (word_of_nat (foldl dec_step 0 ds), length ds) else None)"
    using l_str2int_dec [of ds] by (simp add: LUA_MAXINTEGER_def)
qed

theorem hex_numerals_wrap_witness:
  "l_str2int ''0xffffffffffffffffff'' = Some (- 1, 20)
   \<and> luaO_str2num no_floats ''0X10000000000000000'' = (20, Some (TNUMINT 0))
   \<and> lua_stringtonumber no_floats four_slots ''0x1F'' =
        Some (5, four_slots\<lparr>stack := (stack four_slots)[5 := TNUMINT 31], topL := 6\<rparr>)
   \<and> l_str2int ''9223372036854775807'' = Some (9223372036854775807, 19)
   \<and> l_str2int ''9223372036854775808'' = None"
  using hex_numerals_wrap_and_decimal_overflow_rejected
          [of "''ffffffffffffffffff''" "''0x''" no_floats four_slots]
        hex_numerals_wrap_and_decimal_overflow_rejected
          [of "''10000000000000000''" "''0X''" no_floats four_slots]
        hex_numerals_wrap_and_decimal_overflow_rejected
          [of "''1F''" "''0x''" no_floats four_slots]
        hex_numerals_wrap_and_decimal_overflow_rejected
          [of "''9223372036854775807''" "''0x''" no_floats four_slots]
        hex_numerals_wrap_and_decimal_overflow_rejected
          [of "''9223372036854775808''" "''0x''" no_floats four_slots]
  by (simp add: hex_step_def dec_step_def luaO_hexavalue_def lisxdigit_def lisdigit_def
        ltolower_def LUA_MAXINTEGER_def api_incr_top_def four_slots_def)

section \<open>Numerals: integer first, float as the fallback\<close>










lemma l_str2int_finish_stops:
  "\<not> lisspace c \<Longrightarrow>
   (let s4 = dropWhile lisspace (c # rest)
    in if emp \<or> s4 \<noteq> [] then None else Some (v, k)) = None"
  by simp






lemma luaO_str2num_fallback:
  "l_str2int (c_str s) = None \<Longrightarrow>
   luaO_str2num fp s =
     (case l_str2d fp (c_str s) of
        Some (n, e) \<Rightarrow> (e + 1, Some (TNUMFLT n))
      | None \<Rightarrow> (0, None))"
  by (simp add: luaO_str2num_def)



lemma c_str_12: "c_str '' 12 '' = '' 12 ''" and c_str_15: "c_str ''1.5'' = ''1.5''"
  and c_str_abc: "c_str ''abc'' = ''abc''"
  by (simp_all add: c_str_def)

lemma l_str2int_12: "l_str2int '' 12 '' = Some (12, 4)"
  by (simp add: l_str2int_def lisspace_def lisdigit_def MAXBY10_def MAXLASTD_def
        LUA_MAXINTEGER_def Let_def)


lemma l_str2d_15: "l_str2d sample_floats ''1.5'' = Some (0x3FF8000000000000, 3)"
  by (simp add: l_str2d_def l_str2dloc_def sample_floats_def no_floats_def ltolower_def Let_def)







lemma find_Some_in: "find P xs = Some x \<Longrightarrow> x \<in> set xs \<and> P x"
  by (induction xs) (auto split: if_splits)








lemma find_not_in: "c \<notin> set t \<Longrightarrow> find P t \<noteq> Some c"
  using find_Some_in [of P t c] by blast














section \<open>Pushing a number and reading it back\<close>

lemma not_pseudo_minus1: "\<not> ispseudo (- 1)"
  by (simp add: ispseudo_def LUA_REGISTRYINDEX_def LUAI_MAXSTACK_def)

lemma index2addr_minus1:
  "ci_func L + 1 < topL L \<Longrightarrow> index2addr L (- 1) = Some (StackSlot (topL L - 1))"
  by (simp add: index2addr_def not_pseudo_minus1 nat_diff_distrib)

lemma index2addr_gettop:
  "ci_func L + 1 < topL L \<Longrightarrow> topL L \<le> ci_top L \<Longrightarrow>
   index2addr L (lua_gettop L) = Some (StackSlot (topL L - 1))"
  by (auto simp add: index2addr_def lua_gettop_def nat_diff_distrib)

lemma api_incr_top_room:
  "topL L < ci_top L \<Longrightarrow> api_incr_top (L\<lparr>stack := st\<rparr>) = Some (L\<lparr>stack := st, topL := topL L + 1\<rparr>)"
  by (simp add: api_incr_top_def Let_def)

lemma tointeger_int: "tointeger fp (TNUMINT n) = Some n"
  by (simp add: tointeger_def)

lemma tonumber_flt: "tonumber fp (TNUMFLT x) = Some x"
  by (simp add: tonumber_def)

text \<open>Claim C7. In a frame with a free slot (the function below the top, the top below the
  frame's top, the frame inside the stack array), \<open>lua_pushinteger\<close> succeeds and
  \<open>lua_tointegerx\<close> reads \<open>n\<close> back from the slot it wrote, with the flag set, by the index
  \<open>-1\<close> and by the absolute index \<open>lua_gettop\<close>; and \<open>lua_pushnumber\<close> followed by
  \<open>lua_tonumberx\<close> gives back the same 64 bits of \<open>x\<close>, for every \<open>x\<close> (so for every
  non-NaN one): the slot is written and read without any arithmetic.\<close>

theorem push_then_read_round_trip:
  "ci_func L < topL L \<and> topL L < ci_top L \<and> ci_top L \<le> length (stack L) \<longrightarrow>
     (\<exists>L'. lua_pushinteger L n = Some L'
           \<and> lua_tointegerx fp L' (- 1) = Some (n, True)
           \<and> lua_tointegerx fp L' (lua_gettop L') = Some (n, True))
     \<and> (\<exists>L'. lua_pushnumber L x = Some L'
           \<and> lua_tonumberx fp L' (- 1) = Some (x, True)
           \<and> lua_tonumberx fp L' (lua_gettop L') = Some (x, True))"
proof (intro impI conjI)
  assume a: "ci_func L < topL L \<and> topL L < ci_top L \<and> ci_top L \<le> length (stack L)"
  then have f: "ci_func L < topL L" and r: "topL L < ci_top L" and s: "topL L < length (stack L)"
    by auto
  let ?Li = "L\<lparr>stack := (stack L)[topL L := TNUMINT n], topL := topL L + 1\<rparr>"
  have "lua_pushinteger L n = Some ?Li"
    by (simp add: lua_pushinteger_def api_incr_top_room [OF r])
  moreover have "lua_tointegerx fp ?Li (- 1) = Some (n, True)"
    using s f by (simp add: lua_tointegerx_def index2addr_minus1 tointeger_int)
  moreover have "lua_tointegerx fp ?Li (lua_gettop ?Li) = Some (n, True)"
    using s f r by (simp add: lua_tointegerx_def index2addr_gettop tointeger_int)
  ultimately show "\<exists>L'. lua_pushinteger L n = Some L'
           \<and> lua_tointegerx fp L' (- 1) = Some (n, True)
           \<and> lua_tointegerx fp L' (lua_gettop L') = Some (n, True)"
    by blast
  let ?Lx = "L\<lparr>stack := (stack L)[topL L := TNUMFLT x], topL := topL L + 1\<rparr>"
  have "lua_pushnumber L x = Some ?Lx"
    by (simp add: lua_pushnumber_def api_incr_top_room [OF r])
  moreover have "lua_tonumberx fp ?Lx (- 1) = Some (x, True)"
    using s f by (simp add: lua_tonumberx_def index2addr_minus1 tonumber_flt)
  moreover have "lua_tonumberx fp ?Lx (lua_gettop ?Lx) = Some (x, True)"
    using s f r by (simp add: lua_tonumberx_def index2addr_gettop tonumber_flt)
  ultimately show "\<exists>L'. lua_pushnumber L x = Some L'
           \<and> lua_tonumberx fp L' (- 1) = Some (x, True)
           \<and> lua_tonumberx fp L' (lua_gettop L') = Some (x, True)"
    by blast
qed

theorem push_then_read_round_trip_witness:
  "ci_func four_slots < topL four_slots \<and> topL four_slots < ci_top four_slots
   \<and> ci_top four_slots \<le> length (stack four_slots)
   \<and> lua_pushinteger four_slots (- 42) =
        Some (four_slots\<lparr>stack := (stack four_slots)[5 := TNUMINT (- 42)], topL := 6\<rparr>)
   \<and> lua_tointegerx no_floats
        (four_slots\<lparr>stack := (stack four_slots)[5 := TNUMINT (- 42)], topL := 6\<rparr>) (- 1)
        = Some (- 42, True)
   \<and> lua_pushnumber four_slots 0x3FF8000000000000 =
        Some (four_slots\<lparr>stack := (stack four_slots)[5 := TNUMFLT 0x3FF8000000000000], topL := 6\<rparr>)
   \<and> lua_tonumberx no_floats
        (four_slots\<lparr>stack := (stack four_slots)[5 := TNUMFLT 0x3FF8000000000000], topL := 6\<rparr>) 5
        = Some (0x3FF8000000000000, True)"
  using push_then_read_round_trip [of four_slots "- 42" no_floats "0x3FF8000000000000"]
  by (simp add: four_slots_def lua_pushinteger_def lua_pushnumber_def api_incr_top_def
        lua_gettop_def lua_tointegerx_def lua_tonumberx_def index2addr_def ispseudo_def
        LUA_REGISTRYINDEX_def LUAI_MAXSTACK_def tointeger_def tonumber_def)

section \<open>Rotation by three reversals\<close>

lemma reverse_length: "length (reverse st f t) = length st"
proof (induction st f t rule: reverse.induct)
  case (1 st f t)
  show ?case
  proof (cases "f < t")
    case True
    with 1 show ?thesis by (subst reverse.simps) simp
  next
    case False
    then show ?thesis by (subst reverse.simps) simp
  qed
qed

lemma reverse_nth:
  "0 \<le> f \<Longrightarrow> t < int (length st) \<Longrightarrow> 0 \<le> i \<Longrightarrow> i < int (length st) \<Longrightarrow>
   reverse st f t ! nat i = (if f \<le> i \<and> i \<le> t then st ! nat (f + t - i) else st ! nat i)"
proof (induction st f t arbitrary: i rule: reverse.induct)
  case (1 st f t)
  show ?case
  proof (cases "f < t")
    case False
    have "f \<le> i \<and> i \<le> t \<Longrightarrow> f + t - i = i" using False by auto
    then have "(if f \<le> i \<and> i \<le> t then st ! nat (f + t - i) else st ! nat i) = st ! nat i"
      by simp
    then show ?thesis using False by (subst reverse.simps) (simp only: if_False)
  next
    case True
    let ?st' = "st[nat f := st ! nat t, nat t := st ! nat f]"
    have len: "length ?st' = length st" by simp
    have r: "reverse st f t = reverse ?st' (f + 1) (t - 1)"
      using True by (subst reverse.simps) simp
    have ih: "reverse ?st' (f + 1) (t - 1) ! nat i =
                (if f + 1 \<le> i \<and> i \<le> t - 1 then ?st' ! nat (f + 1 + (t - 1) - i) else ?st' ! nat i)"
      using "1.IH" [OF True, of i] "1.prems" by simp
    have ft: "nat f \<noteq> nat t" "nat f < length st" "nat t < length st"
      using True "1.prems" by auto
    consider "i = f" | "i = t" | "f < i \<and> i < t" | "i < f \<or> t < i" using True by linarith
    then show ?thesis
    proof cases
      case 1
      then show ?thesis unfolding r ih using ft True by (simp add: nth_list_update)
    next
      case 2
      then show ?thesis unfolding r ih using ft True by (simp add: nth_list_update)
    next
      case 3
      then have a: "nat i \<noteq> nat f" "nat i \<noteq> nat t" using "1.prems" by auto
      have b: "nat (f + t - i) \<noteq> nat f" "nat (f + t - i) \<noteq> nat t" using 3 "1.prems" by auto
      from 3 show ?thesis unfolding r ih using a b
        by (simp add: nth_list_update algebra_simps)
    next
      case 4
      then have a: "nat i \<noteq> nat f" "nat i \<noteq> nat t" using "1.prems" True by auto
      from 4 show ?thesis unfolding r ih using a by (auto simp add: nth_list_update)
    qed
  qed
qed

lemma mod_below: "- l \<le> x \<Longrightarrow> x < 0 \<Longrightarrow> x mod l = x + (l :: int)"
proof -
  assume a: "- l \<le> x" "x < 0"
  have "x mod l = (x + l) mod l" by simp
  also have "\<dots> = x + l" using a by (intro mod_pos_pos_trivial) auto
  finally show ?thesis .
qed

lemma mod_above: "l \<le> x \<Longrightarrow> x < 2 * l \<Longrightarrow> x mod l = x - (l :: int)"
proof -
  assume a: "l \<le> x" "x < 2 * l"
  have "x mod l = (x - l) mod l" by simp
  also have "\<dots> = x - l" using a by (intro mod_pos_pos_trivial) auto
  finally show ?thesis .
qed

lemma three_reversals_nth:
  assumes p: "0 \<le> p" "p \<le> t" and t: "t < int (length st)"
      and n: "(if 0 \<le> n then n else - n) \<le> t - p + 1"
      and i: "p \<le> i" "i \<le> t"
      and m: "m = (if 0 \<le> n then t - n else p - n - 1)"
  shows "reverse (reverse (reverse st p m) (m + 1) t) p t ! nat i
           = st ! nat (p + (i - p - n) mod (t - p + 1))"
proof -
  let ?st1 = "reverse st p m"
  let ?st2 = "reverse ?st1 (m + 1) t"
  let ?len = "t - p + 1"
  have mb: "p - 1 \<le> m" "m \<le> t" using m n p by (auto split: if_splits)
  have l1: "length ?st1 = length st" and l2: "length ?st2 = length st"
    by (simp_all add: reverse_length)
  define j where "j = p + t - i"
  have jb: "p \<le> j" "j \<le> t" using i by (auto simp: j_def)
  have s3: "reverse ?st2 p t ! nat i = ?st2 ! nat j"
    using reverse_nth [of p t ?st2 i] p t i l2 by (simp add: j_def)
  show ?thesis
  proof (cases "m + 1 \<le> j")
    case True
    define k where "k = m + 1 + t - j"
    have kb: "m + 1 \<le> k" "k \<le> t" using True jb by (auto simp: k_def)
    have s2: "?st2 ! nat j = ?st1 ! nat k"
      using reverse_nth [of "m + 1" t ?st1 j] mb p t jb l1 True by (simp add: k_def)
    have s1: "?st1 ! nat k = st ! nat k"
      using reverse_nth [of p m st k] mb p t kb by simp
    have "k = p + (i - p - n) mod ?len"
    proof (cases "0 \<le> n")
      case True
      then have mt: "m = t - n" using m by simp
      have "- ?len \<le> i - p - n" "i - p - n < 0"
        using \<open>m + 1 \<le> j\<close> n i True by (auto simp: j_def mt)
      then have "(i - p - n) mod ?len = i - p - n + ?len" by (rule mod_below)
      then show ?thesis by (simp add: k_def j_def mt)
    next
      case False
      then have mt: "m = p - n - 1" using m by simp
      have "0 \<le> i - p - n" "i - p - n < ?len"
        using \<open>m + 1 \<le> j\<close> i False by (auto simp: j_def mt)
      then have "(i - p - n) mod ?len = i - p - n" by (rule mod_pos_pos_trivial)
      then show ?thesis by (simp add: k_def j_def mt)
    qed
    with s3 s2 s1 show ?thesis by simp
  next
    case False
    then have jm: "j \<le> m" by simp
    define k where "k = p + m - j"
    have s2: "?st2 ! nat j = ?st1 ! nat j"
      using reverse_nth [of "m + 1" t ?st1 j] mb p t jb l1 False by simp
    have s1: "?st1 ! nat j = st ! nat k"
      using reverse_nth [of p m st j] mb p t jb jm by (simp add: k_def)
    have "k = p + (i - p - n) mod ?len"
    proof (cases "0 \<le> n")
      case True
      then have mt: "m = t - n" using m by simp
      have "0 \<le> i - p - n" "i - p - n < ?len"
        using jm i True by (auto simp: j_def mt)
      then have "(i - p - n) mod ?len = i - p - n" by (rule mod_pos_pos_trivial)
      then show ?thesis by (simp add: k_def j_def mt)
    next
      case False
      then have mt: "m = p - n - 1" using m by simp
      have "?len \<le> i - p - n" "i - p - n < 2 * ?len"
        using jm n i False by (auto simp: j_def mt)
      then have "(i - p - n) mod ?len = i - p - n - ?len" by (rule mod_above)
      then show ?thesis by (simp add: k_def j_def mt)
    qed
    with s3 s2 s1 show ?thesis by simp
  qed
qed

lemma three_reversals_outside:
  assumes p: "0 \<le> p" and t: "t < int (length st)" and mb: "p - 1 \<le> m" "m \<le> t"
      and i: "0 \<le> i" "i < int (length st)" "i < p \<or> t < i"
  shows "reverse (reverse (reverse st p m) (m + 1) t) p t ! nat i = st ! nat i"
proof -
  let ?st1 = "reverse st p m"
  let ?st2 = "reverse ?st1 (m + 1) t"
  have l1: "length ?st1 = length st" and l2: "length ?st2 = length st"
    by (simp_all add: reverse_length)
  have "reverse ?st2 p t ! nat i = ?st2 ! nat i"
    using reverse_nth [of p t ?st2 i] p t i l2 by auto
  also have "\<dots> = ?st1 ! nat i"
    using reverse_nth [of "m + 1" t ?st1 i] p t i l1 mb by auto
  also have "\<dots> = st ! nat i"
    using reverse_nth [of p m st i] p t i mb by auto
  finally show ?thesis .
qed


lemma index2addr_stack_slot:
  "index2addr L idx = Some (StackSlot p) \<Longrightarrow> p < topL L"
  by (auto simp add: index2addr_def Let_def split: if_splits TValue.splits)

lemma lua_rotate_result:
  assumes a: "index2addr L idx = Some (StackSlot p)" "\<not> ispseudo idx"
      and n: "(if 0 \<le> n then n else - n) \<le> int (topL L) - int p"
  shows "lua_rotate L idx n =
           Some (L\<lparr>stack :=
              reverse (reverse (reverse (stack L) (int p)
                                  (if 0 \<le> n then int (topL L) - 1 - n else int p - n - 1))
                         ((if 0 \<le> n then int (topL L) - 1 - n else int p - n - 1) + 1)
                         (int (topL L) - 1))
                (int p) (int (topL L) - 1)\<rparr>)"
  using a n by (simp add: lua_rotate_def Let_def)

lemma rotated_segment:
  fixes st st' :: "'a list"
  assumes len: "p + l \<le> length st" "length st' = length st" "0 < l"
      and src: "\<And>i. int p \<le> i \<Longrightarrow> i < int p + int l \<Longrightarrow>
                  st' ! nat i = st ! nat (int p + (i - int p - n) mod int l)"
  shows "take l (drop p st') = naive_rotate n (take l (drop p st))"
proof (rule nth_equalityI)
  show "length (take l (drop p st')) = length (naive_rotate n (take l (drop p st)))"
    using len by (simp add: naive_rotate_def)
next
  fix j assume "j < length (take l (drop p st'))"
  then have j: "j < l" using len by simp
  have m: "0 \<le> (int j - n) mod int l" "(int j - n) mod int l < int l"
    using len(3) by simp_all
  have "take l (drop p st') ! j = st' ! nat (int p + int j)"
    using j len by (simp add: nat_add_distrib)
  also have "\<dots> = st ! nat (int p + (int j - n) mod int l)"
    using src [of "int p + int j"] j by simp
  also have "\<dots> = st ! (p + nat ((int j - n) mod int l))"
    using m by (simp add: nat_add_distrib)
  also have "\<dots> = take l (drop p st) ! nat ((int j - n) mod int l)"
    using m len by (simp add: nat_less_iff)
  also have "\<dots> = naive_rotate n (take l (drop p st)) ! j"
    using j len by (simp add: naive_rotate_def)
  finally show "take l (drop p st') ! j = naive_rotate n (take l (drop p st)) ! j" .
qed

text \<open>Claim C9. For an index \<open>idx\<close> that \<open>index2addr\<close> resolves to the stack slot \<open>p\<close> (a
  valid index that is not a pseudo-index) and \<open>n\<close> with \<open>|n|\<close> at most the number of slots
  from \<open>p\<close> to the top, \<open>lua_rotate\<close> returns a state that differs from \<open>L\<close> in the stack
  contents only; the stack keeps its length; the element at position \<open>k\<close> of the segment
  has moved to position \<open>p + (k - p + n) mod len\<close>, \<open>len\<close> being the length of the segment;
  every slot outside the segment is unchanged; and the segment is the rotation
  \<open>naive_rotate\<close> of the old one.\<close>

theorem lua_rotate_three_reversals_rotate:
  "index2addr L idx = Some (StackSlot p) \<and> \<not> ispseudo idx
   \<and> (if 0 \<le> n then n else - n) \<le> int (topL L) - int p \<and> topL L \<le> length (stack L) \<longrightarrow>
     (\<exists>st'. lua_rotate L idx n = Some (L\<lparr>stack := st'\<rparr>)
        \<and> length st' = length (stack L)
        \<and> (\<forall>k. p \<le> k \<and> k < topL L \<longrightarrow>
              st' ! (p + nat ((int k - int p + n) mod (int (topL L) - int p))) = stack L ! k)
        \<and> (\<forall>j. j < length (stack L) \<and> (j < p \<or> topL L \<le> j) \<longrightarrow> st' ! j = stack L ! j)
        \<and> take (topL L - p) (drop p st') = naive_rotate n (take (topL L - p) (drop p (stack L))))"
proof (intro impI)
  assume h: "index2addr L idx = Some (StackSlot p) \<and> \<not> ispseudo idx
   \<and> (if 0 \<le> n then n else - n) \<le> int (topL L) - int p \<and> topL L \<le> length (stack L)"
  then have a: "index2addr L idx = Some (StackSlot p)" "\<not> ispseudo idx"
    and n: "(if 0 \<le> n then n else - n) \<le> int (topL L) - int p"
    and wf: "topL L \<le> length (stack L)" by auto
  have pt: "p < topL L" using a(1) by (rule index2addr_stack_slot)
  define t where "t = int (topL L) - 1"
  define m where "m = (if 0 \<le> n then t - n else int p - n - 1)"
  define st' where "st' = reverse (reverse (reverse (stack L) (int p) m) (m + 1) t) (int p) t"
  define l where "l = int (topL L) - int p"
  have lt: "l = t - int p + 1" "0 < l" using pt by (auto simp: l_def t_def)
  have tb: "int p \<le> t" "t < int (length (stack L))" using pt wf by (auto simp: t_def)
  have n': "(if 0 \<le> n then n else - n) \<le> t - int p + 1" using n by (simp add: t_def)
  have mb: "int p - 1 \<le> m" "m \<le> t" using n' tb by (auto simp: m_def split: if_splits)
  have res: "lua_rotate L idx n = Some (L\<lparr>stack := st'\<rparr>)"
    using lua_rotate_result [OF a n] by (simp add: st'_def m_def t_def)
  have len: "length st' = length (stack L)" by (simp add: st'_def reverse_length)
  have src: "st' ! nat i = stack L ! nat (int p + (i - int p - n) mod l)"
    if "int p \<le> i" "i \<le> t" for i
    using three_reversals_nth [of "int p" t "stack L" n i m] tb n' that
    by (simp add: st'_def m_def lt(1))
  have dest: "st' ! (p + nat ((int k - int p + n) mod l)) = stack L ! k"
    if k: "p \<le> k" "k < topL L" for k
  proof -
    define i where "i = int p + (int k - int p + n) mod l"
    have mr: "0 \<le> (int k - int p + n) mod l" "(int k - int p + n) mod l < l"
      using lt(2) by simp_all
    then have ib: "int p \<le> i" "i \<le> t" by (auto simp: i_def lt(1))
    have "(i - int p - n) mod l = ((int k - int p + n) mod l - n) mod l" by (simp add: i_def)
    also have "\<dots> = (int k - int p + n - n) mod l" by (rule mod_diff_left_eq)
    also have "\<dots> = int k - int p"
      using k by (simp add: l_def)
    finally have inv: "int p + (i - int p - n) mod l = int k" by simp
    have "p + nat ((int k - int p + n) mod l) = nat i"
      using mr by (simp add: i_def nat_add_distrib)
    then show ?thesis using src [OF ib] inv by simp
  qed
  have out: "st' ! j = stack L ! j" if "j < length (stack L)" "j < p \<or> topL L \<le> j" for j
    using three_reversals_outside [of "int p" t "stack L" m "int j"] tb mb that
    by (auto simp: st'_def t_def)
  have seg: "take (topL L - p) (drop p st') = naive_rotate n (take (topL L - p) (drop p (stack L)))"
  proof (rule rotated_segment)
    show "p + (topL L - p) \<le> length (stack L)" using pt wf by simp
    show "length st' = length (stack L)" by (rule len)
    show "0 < topL L - p" using pt by simp
    fix i assume i: "int p \<le> i" "i < int p + int (topL L - p)"
    then have "i \<le> t" using pt by (simp add: t_def)
    moreover have "int (topL L - p) = l" using pt by (simp add: l_def)
    ultimately show "st' ! nat i = stack L ! nat (int p + (i - int p - n) mod int (topL L - p))"
      using src [OF i(1)] by simp
  qed
  from res len dest out seg
  show "\<exists>st'. lua_rotate L idx n = Some (L\<lparr>stack := st'\<rparr>)
        \<and> length st' = length (stack L)
        \<and> (\<forall>k. p \<le> k \<and> k < topL L \<longrightarrow>
              st' ! (p + nat ((int k - int p + n) mod (int (topL L) - int p))) = stack L ! k)
        \<and> (\<forall>j. j < length (stack L) \<and> (j < p \<or> topL L \<le> j) \<longrightarrow> st' ! j = stack L ! j)
        \<and> take (topL L - p) (drop p st') = naive_rotate n (take (topL L - p) (drop p (stack L)))"
    unfolding l_def by blast
qed


theorem lua_rotate_three_reversals_witness:
  "index2addr four_slots 2 = Some (StackSlot 2) \<and> \<not> ispseudo 2
   \<and> (1 :: int) \<le> int (topL four_slots) - int 2 \<and> topL four_slots \<le> length (stack four_slots)
   \<and> lua_rotate four_slots 2 1 =
        Some (four_slots\<lparr>stack := [TLCF 0, TNUMINT 1, TNUMINT 4, TNUMINT 2, TNUMINT 3,
                                      TNIL, TNIL, TNIL]\<rparr>)
   \<and> index2addr four_slots (- 3) = Some (StackSlot 2)
   \<and> lua_rotate four_slots (- 3) (- 1) =
        Some (four_slots\<lparr>stack := [TLCF 0, TNUMINT 1, TNUMINT 3, TNUMINT 4, TNUMINT 2,
                                      TNIL, TNIL, TNIL]\<rparr>)
   \<and> naive_rotate 1 [TNUMINT 2, TNUMINT 3, TNUMINT 4] = [TNUMINT 4, TNUMINT 2, TNUMINT 3]"
  using lua_rotate_three_reversals_rotate [of four_slots 2 2 1]
        lua_rotate_three_reversals_rotate [of four_slots "- 3" 2 "- 1"]
  by (simp add: four_slots_def index2addr_def ispseudo_def LUA_REGISTRYINDEX_def
        LUAI_MAXSTACK_def lua_rotate_def reverse.simps naive_rotate_def Let_def upt_rec)

section \<open>Arithmetic: coercion first, then the tag methods\<close>




















end
